theory Spec2Isabelle
  imports Complex_Main "HOL-Library.Multiset" "HOL-Library.Char_ord" "HOL-Library.List_Lexorder"
    "HOL-Library.Product_Lexorder"
begin

section \<open>JavaScript values\<close>

text \<open>
  A JavaScript number is a double: a finite value, one of the two infinities, or NaN.
  Finite doubles are a subset of the reals and are modelled by \<open>Fin\<close>; the two zeros
  are one value (\<open><\<close>, \<open><=\<close>, \<open>||\<close> and the sign of a difference do not tell them
  apart). Every comparison with NaN is false.
\<close>

datatype jsnum = NaN | NegInf | Fin real | PosInf

fun js_lt :: "jsnum \<Rightarrow> jsnum \<Rightarrow> bool" where
  "js_lt NaN _ = False"
| "js_lt _ NaN = False"
| "js_lt (Fin a) (Fin b) = (a < b)"
| "js_lt NegInf NegInf = False"
| "js_lt NegInf _ = True"
| "js_lt PosInf _ = False"
| "js_lt (Fin _) PosInf = True"
| "js_lt (Fin _) NegInf = False"

fun js_le :: "jsnum \<Rightarrow> jsnum \<Rightarrow> bool" where
  "js_le NaN _ = False"
| "js_le _ NaN = False"
| "js_le (Fin a) (Fin b) = (a \<le> b)"
| "js_le NegInf _ = True"
| "js_le PosInf PosInf = True"
| "js_le PosInf _ = False"
| "js_le (Fin _) PosInf = True"
| "js_le (Fin _) NegInf = False"

fun js_neg :: "jsnum \<Rightarrow> jsnum" where
  "js_neg NaN = NaN"
| "js_neg NegInf = PosInf"
| "js_neg PosInf = NegInf"
| "js_neg (Fin a) = Fin (- a)"

text \<open>\<open>Math.abs\<close>.\<close>

fun js_abs :: "jsnum \<Rightarrow> jsnum" where
  "js_abs NaN = NaN"
| "js_abs NegInf = PosInf"
| "js_abs PosInf = PosInf"
| "js_abs (Fin a) = Fin \<bar>a\<bar>"

text \<open>
  \<open>a - b\<close>, \<open>a + b\<close>, \<open>a * b\<close>, \<open>Math.floor\<close> and \<open>Math.round\<close> (halves go up). On
  finite values they are the exact operations on the reals: the rounding of the double
  result is not modelled. The sort comparators read only the sign of a difference, which
  rounding keeps (the difference of two finite doubles is zero only when they are equal);
  the other callers are the readers of date and time cells.
\<close>

fun js_sub :: "jsnum \<Rightarrow> jsnum \<Rightarrow> jsnum" where
  "js_sub NaN _ = NaN"
| "js_sub _ NaN = NaN"
| "js_sub (Fin a) (Fin b) = Fin (a - b)"
| "js_sub PosInf PosInf = NaN"
| "js_sub NegInf NegInf = NaN"
| "js_sub PosInf _ = PosInf"
| "js_sub NegInf _ = NegInf"
| "js_sub (Fin _) PosInf = NegInf"
| "js_sub (Fin _) NegInf = PosInf"

fun js_add :: "jsnum \<Rightarrow> jsnum \<Rightarrow> jsnum" where
  "js_add NaN _ = NaN"
| "js_add _ NaN = NaN"
| "js_add (Fin a) (Fin b) = Fin (a + b)"
| "js_add PosInf NegInf = NaN"
| "js_add NegInf PosInf = NaN"
| "js_add PosInf _ = PosInf"
| "js_add NegInf _ = NegInf"
| "js_add (Fin _) PosInf = PosInf"
| "js_add (Fin _) NegInf = NegInf"

definition inf_times :: "jsnum \<Rightarrow> real \<Rightarrow> jsnum" where
  "inf_times i b = (if b = 0 then NaN else if 0 < b then i else js_neg i)"

fun js_mul :: "jsnum \<Rightarrow> jsnum \<Rightarrow> jsnum" where
  "js_mul NaN _ = NaN"
| "js_mul _ NaN = NaN"
| "js_mul (Fin a) (Fin b) = Fin (a * b)"
| "js_mul (Fin a) i = inf_times i a"
| "js_mul i (Fin b) = inf_times i b"
| "js_mul PosInf i = i"
| "js_mul NegInf i = js_neg i"

fun js_floor :: "jsnum \<Rightarrow> jsnum" where
  "js_floor (Fin a) = Fin (of_int \<lfloor>a\<rfloor>)"
| "js_floor x = x"

fun js_round :: "jsnum \<Rightarrow> jsnum" where
  "js_round (Fin a) = Fin (of_int \<lfloor>a + 1 / 2\<rfloor>)"
| "js_round x = x"

text \<open>
  \<open>new Date(t)\<close> on a number: the time value is \<open>t\<close> cut to an integer, and NaN (an
  invalid date) when \<open>t\<close> is not finite or beyond 8.64e15 milliseconds.
\<close>

fun time_clip :: "jsnum \<Rightarrow> jsnum" where
  "time_clip (Fin t) =
     (if 8640000000000000 < \<bar>t\<bar> then NaN
      else Fin (of_int (if 0 \<le> t then \<lfloor>t\<rfloor> else \<lceil>t\<rceil>)))"
| "time_clip _ = NaN"

text \<open>\<open>getUTCHours\<close>, \<open>getUTCMinutes\<close> and \<open>getUTCSeconds\<close> of a time value.\<close>

fun getUTCHours :: "jsnum \<Rightarrow> jsnum" where
  "getUTCHours (Fin t) = Fin (of_int (\<lfloor>t / 3600000\<rfloor> mod 24))"
| "getUTCHours _ = NaN"

fun getUTCMinutes :: "jsnum \<Rightarrow> jsnum" where
  "getUTCMinutes (Fin t) = Fin (of_int (\<lfloor>t / 60000\<rfloor> mod 60))"
| "getUTCMinutes _ = NaN"

fun getUTCSeconds :: "jsnum \<Rightarrow> jsnum" where
  "getUTCSeconds (Fin t) = Fin (of_int (\<lfloor>t / 1000\<rfloor> mod 60))"
| "getUTCSeconds _ = NaN"

text \<open>\<open>Number.isFinite\<close>.\<close>

fun isFinite :: "jsnum \<Rightarrow> bool" where
  "isFinite (Fin _) = True"
| "isFinite _ = False"

text \<open>Truthiness of a number: every number but zero and NaN.\<close>

fun num_truthy :: "jsnum \<Rightarrow> bool" where
  "num_truthy NaN = False"
| "num_truthy (Fin a) = (a \<noteq> 0)"
| "num_truthy _ = True"

text \<open>\<open>Number(x || 0)\<close> on a number \<open>x\<close>.\<close>

definition or0 :: "jsnum \<Rightarrow> jsnum" where
  "or0 x = (if num_truthy x then x else Fin 0)"

text \<open>
  The values a spreadsheet cell or an object field holds. A \<open>Date\<close> is modelled by its
  time value (milliseconds since the epoch, NaN for an invalid date).
\<close>

datatype jsval = JUndefined | JNull | JBool bool | JNum jsnum | JStr string | JDate jsnum

text \<open>
  Built-ins of the runtime that the program calls and that are no code of the
  repository: the decimal rendering of a number and of a date (\<open>String(x)\<close>), the
  reading of a string as a number (\<open>Number(s)\<close>), the reading of a string as a date
  (\<open>new Date(s)\<close>, the time value), and \<open>x.toFixed(2)\<close>. The program is modelled over
  any such runtime.
\<close>

record runtime =
  num_to_string :: "jsnum \<Rightarrow> string"
  date_to_string :: "jsnum \<Rightarrow> string"
  string_to_num :: "string \<Rightarrow> jsnum"
  date_parse :: "string \<Rightarrow> jsnum"
  toFixed2 :: "jsnum \<Rightarrow> string"

text \<open>\<open>String(x)\<close>.\<close>

fun to_String :: "runtime \<Rightarrow> jsval \<Rightarrow> string" where
  "to_String rt JUndefined = ''undefined''"
| "to_String rt JNull = ''null''"
| "to_String rt (JBool b) = (if b then ''true'' else ''false'')"
| "to_String rt (JNum n) = num_to_string rt n"
| "to_String rt (JStr s) = s"
| "to_String rt (JDate t) = date_to_string rt t"

section \<open>Strings and regular expressions\<close>

text \<open>
  A string is a list of code units; a \<open>char\<close> stands for a code unit below 256. The
  white space that \<open>trim\<close> strips and \<open>\s\<close> matches is, in that range: tab, line feed,
  vertical tab, form feed, carriage return, space and no-break space.
\<close>

definition is_space :: "char \<Rightarrow> bool" where
  "is_space c = (c \<in> set [CHR 0x09, CHR 0x0A, CHR 0x0B, CHR 0x0C, CHR 0x0D, CHR 0x20, CHR 0xA0])"

definition is_digit :: "char \<Rightarrow> bool" where
  "is_digit c = (c \<in> set ''0123456789'')"

definition is_word :: "char \<Rightarrow> bool" where
  "is_word c = (c \<in> set ''abcdefghijklmnopqrstuvwxyzABCDEFGHIJKLMNOPQRSTUVWXYZ0123456789_'')"

text \<open>The dot of a regular expression: any code unit but a line terminator.\<close>

definition is_dot :: "char \<Rightarrow> bool" where
  "is_dot c = (c \<notin> set [CHR 0x0A, CHR 0x0D])"

definition trim :: "string \<Rightarrow> string" where
  "trim s = rev (dropWhile is_space (rev (dropWhile is_space s)))"

text \<open>\<open>s.startsWith(p)\<close>.\<close>

fun startsWith :: "string \<Rightarrow> string \<Rightarrow> bool" where
  "startsWith s [] = True"
| "startsWith [] (p # ps) = False"
| "startsWith (c # cs) (p # ps) = (c = p \<and> startsWith cs ps)"

text \<open>\<open>s.includes(p)\<close>.\<close>

fun str_includes :: "string \<Rightarrow> string \<Rightarrow> bool" where
  "str_includes [] p = (p = [])"
| "str_includes (c # cs) p = (startsWith (c # cs) p \<or> str_includes cs p)"

text \<open>\<open>xs.join(sep)\<close>.\<close>

fun join :: "string \<Rightarrow> string list \<Rightarrow> string" where
  "join sep [] = []"
| "join sep [x] = x"
| "join sep (x # y # ys) = x @ sep @ join sep (y # ys)"

text \<open>
  Regular expressions with the backtracking semantics of the runtime's matcher. A
  matcher state is the text consumed so far (reversed: its head is the code unit just
  before the current position), the text still to read, and the captures made (latest
  first). \<open>rx_run r st\<close> lists every way \<open>r\<close> can match from \<open>st\<close>, in the order
  the backtracking matcher tries them: a greedy star tries one more iteration before it
  tries to stop, an alternative tries its left branch first. An iteration of a star that
  consumes nothing is rejected, as the runtime does.
\<close>

datatype rx =
    Eps
  | Cls "char \<Rightarrow> bool"
  | Seq rx rx
  | Alt rx rx
  | Star rx
  | Grp nat rx
  | WordB
  | Bol
  | Eol

type_synonym rx_state = "string \<times> string \<times> (nat \<times> string) list"

definition at_word_boundary :: "string \<Rightarrow> string \<Rightarrow> bool" where
  "at_word_boundary b s =
     ((case b of [] \<Rightarrow> False | c # _ \<Rightarrow> is_word c) \<noteq>
      (case s of [] \<Rightarrow> False | c # _ \<Rightarrow> is_word c))"

fun rx_run :: "rx \<Rightarrow> rx_state \<Rightarrow> rx_state list" where
  "rx_run Eps st = [st]"
| "rx_run (Cls P) (b, [], caps) = []"
| "rx_run (Cls P) (b, c # cs, caps) = (if P c then [(c # b, cs, caps)] else [])"
| "rx_run (Seq r1 r2) st = concat (map (rx_run r2) (rx_run r1 st))"
| "rx_run (Alt r1 r2) st = rx_run r1 st @ rx_run r2 st"
| "rx_run (Star r) (b, s, caps) =
     concat (map (\<lambda>st'. if length (fst (snd st')) < length s then rx_run (Star r) st' else [])
                 (rx_run r (b, s, caps)))
     @ [(b, s, caps)]"
| "rx_run (Grp n r) (b, s, caps) =
     map (\<lambda>(b', s', caps'). (b', s', (n, rev (take (length b' - length b) b')) # caps'))
         (rx_run r (b, s, caps))"
| "rx_run WordB (b, s, caps) = (if at_word_boundary b s then [(b, s, caps)] else [])"
| "rx_run Bol (b, s, caps) = (if b = [] then [(b, s, caps)] else [])"
| "rx_run Eol (b, s, caps) = (if s = [] then [(b, s, caps)] else [])"

text \<open>
  \<open>s.match(r)\<close> without the global flag: the first way to match at the leftmost start
  position that has one. The result holds the captures; \<open>rx_group m n\<close> is \<open>m[n]\<close>,
  \<open>None\<close> when the group took no part in the match (\<open>undefined\<close>).
\<close>

fun rx_search :: "rx \<Rightarrow> string \<Rightarrow> string \<Rightarrow> rx_state option" where
  "rx_search r b [] = (case rx_run r (b, [], []) of [] \<Rightarrow> None | st # _ \<Rightarrow> Some st)"
| "rx_search r b (c # cs) =
     (case rx_run r (b, c # cs, []) of [] \<Rightarrow> rx_search r (c # b) cs | st # _ \<Rightarrow> Some st)"

definition rx_match :: "rx \<Rightarrow> string \<Rightarrow> (nat \<times> string) list option" where
  "rx_match r s = map_option (\<lambda>(b, s', caps). caps) (rx_search r [] s)"

definition rx_group :: "(nat \<times> string) list \<Rightarrow> nat \<Rightarrow> string option" where
  "rx_group caps n = map_of caps n"

text \<open>\<open>r.test(s)\<close>.\<close>

definition rx_test :: "rx \<Rightarrow> string \<Rightarrow> bool" where
  "rx_test r s = (rx_match r s \<noteq> None)"

definition Plus :: "rx \<Rightarrow> rx" where
  "Plus r = Seq r (Star r)"

definition Opt :: "rx \<Rightarrow> rx" where
  "Opt r = Alt r Eps"

definition Chr :: "char \<Rightarrow> rx" where
  "Chr c = Cls (\<lambda>x. x = c)"

text \<open>A literal, and a literal under the \<open>i\<close> flag (letters given in both cases).\<close>

fun Lit :: "string \<Rightarrow> rx" where
  "Lit [] = Eps"
| "Lit (c # cs) = Seq (Chr c) (Lit cs)"

fun Lit2 :: "(char \<times> char) list \<Rightarrow> rx" where
  "Lit2 [] = Eps"
| "Lit2 ((c, d) # cs) = Seq (Cls (\<lambda>x. x = c \<or> x = d)) (Lit2 cs)"

section \<open>Identity normalizer\<close>

text \<open>\<open>/^\d+\.0$/\<close> and \<open>/^\d+$/\<close>.\<close>

definition rx_int_dot0 :: rx where
  "rx_int_dot0 = Seq Bol (Seq (Plus (Cls is_digit)) (Seq (Chr CHR ''.'') (Seq (Chr CHR ''0'') Eol)))"

definition rx_digits :: rx where
  "rx_digits = Seq Bol (Seq (Plus (Cls is_digit)) Eol)"

text \<open>\<open>s.split(".")[0]\<close>: the text before the first dot.\<close>

definition split_dot_first :: "string \<Rightarrow> string" where
  "split_dot_first s = takeWhile (\<lambda>c. c \<noteq> CHR ''.'') s"

definition normIntish :: "runtime \<Rightarrow> jsval \<Rightarrow> string" where
  "normIntish rt x =
     (if x = JNull \<or> x = JUndefined then ''''
      else let s = trim (to_String rt x);
               s = (if rx_test rx_int_dot0 s then split_dot_first s else s)
           in trim s)"

text \<open>
  \<open>zfill\<close>; the pad widths come from the configuration as integers. A width that is not
  above the length leaves the string as it is.
\<close>

definition zfill :: "string \<Rightarrow> int \<Rightarrow> string" where
  "zfill s n = (if int (length s) \<ge> n then s else replicate (nat (n - int (length s))) CHR ''0'' @ s)"

definition normMaterial :: "runtime \<Rightarrow> jsval \<Rightarrow> int \<Rightarrow> string" where
  "normMaterial rt x padTo =
     (let s = normIntish rt x
      in if padTo \<noteq> 0 \<and> rx_test rx_digits s then zfill s padTo else s)"

definition normSloc :: "runtime \<Rightarrow> jsval \<Rightarrow> int \<Rightarrow> string" where
  "normSloc rt x padTo =
     (let s = normIntish rt x
      in if padTo \<noteq> 0 \<and> rx_test rx_digits s then zfill s padTo else s)"

text \<open>The key is the three fields with a pipe character between them.\<close>

definition makeKey :: "string \<Rightarrow> string \<Rightarrow> string \<Rightarrow> string" where
  "makeKey plant material sloc = plant @ ''|'' @ material @ ''|'' @ sloc"

section \<open>Objects, arrays and sorting\<close>

text \<open>
  An object is the list of its properties in insertion order; a property that is not
  there reads as \<open>undefined\<close>, and so does an array element beyond the array's length.
\<close>

type_synonym obj = "(string \<times> jsval) list"

definition get_prop :: "obj \<Rightarrow> string \<Rightarrow> jsval" where
  "get_prop r k = (case map_of r k of None \<Rightarrow> JUndefined | Some v \<Rightarrow> v)"

definition Object_keys :: "obj \<Rightarrow> string list" where
  "Object_keys r = map fst r"

definition cell :: "jsval list \<Rightarrow> nat \<Rightarrow> jsval" where
  "cell r i = (if i < length r then r ! i else JUndefined)"

text \<open>\<open>x ?? d\<close>.\<close>

definition nullish_or :: "jsval \<Rightarrow> jsval \<Rightarrow> jsval" where
  "nullish_or x d = (if x = JNull \<or> x = JUndefined then d else x)"

text \<open>
  \<open>xs.sort(cmp)\<close>. The runtime's sort is stable; \<open>x\<close> goes behind \<open>y\<close> when
  \<open>cmp(x, y) > 0\<close>, and a comparator result of NaN counts as zero. For a comparator that
  is a consistent ordering the result is the one permutation that is ordered by it and
  keeps the input order of elements comparing equal; insertion from the right computes it.
\<close>

fun js_insert :: "('a \<Rightarrow> 'a \<Rightarrow> jsnum) \<Rightarrow> 'a \<Rightarrow> 'a list \<Rightarrow> 'a list" where
  "js_insert cmp x [] = [x]"
| "js_insert cmp x (y # ys) =
     (if js_lt (Fin 0) (cmp x y) then y # js_insert cmp x ys else x # y # ys)"

definition js_sort :: "('a \<Rightarrow> 'a \<Rightarrow> jsnum) \<Rightarrow> 'a list \<Rightarrow> 'a list" where
  "js_sort cmp xs = foldr (js_insert cmp) xs []"

text \<open>A \<open>Set\<close> of strings in insertion order, and \<open>s.add(x)\<close>.\<close>

definition set_add :: "string list \<Rightarrow> string \<Rightarrow> string list" where
  "set_add s x = (if x \<in> set s then s else s @ [x])"

text \<open>An error with its message.\<close>

datatype error = Error string

section \<open>Transaction cleaner\<close>

definition MB51_REQUIRED :: "string list" where
  "MB51_REQUIRED =
     [''Plant'', ''Material'', ''Material Description'', ''Storage Location'',
      ''Movement Type'', ''Movement Type Text'', ''Posting Date'', ''Time of Entry'',
      ''Qty in unit of entry'']"

definition SALES_MVTS :: "string list" where
  "SALES_MVTS = [''251'', ''601'']"

definition RECEIPT_MVTS :: "string list" where
  "RECEIPT_MVTS = [''101'']"

definition COUNT_MVTS :: "string list" where
  "COUNT_MVTS = [''701'', ''702'']"

definition safeNumber :: "runtime \<Rightarrow> jsval \<Rightarrow> jsnum" where
  "safeNumber rt x =
     (let n = string_to_num rt (trim (filter (\<lambda>c. c \<noteq> CHR '','') (to_String rt x)))
      in if isFinite n then n else Fin 0)"

definition excelSerialToDate :: "jsnum \<Rightarrow> jsnum" where
  "excelSerialToDate n =
     (let utcDays = js_floor (js_sub n (Fin 25569));
          utcValue = js_mul utcDays (Fin 86400);
          dateInfo = time_clip (js_mul utcValue (Fin 1000));
          fractional = js_sub n (js_floor n);
          seconds = js_round (js_mul fractional (Fin 86400))
      in time_clip (js_add dateInfo (js_mul seconds (Fin 1000))))"

text \<open>A date or \<open>null\<close> is the option of a time value.\<close>

definition parseDateString :: "runtime \<Rightarrow> jsval \<Rightarrow> jsnum option" where
  "parseDateString rt v =
     (let s = trim (to_String rt v);
          d = date_parse rt s
      in if d \<noteq> NaN then Some d else None)"

definition parseDateCell :: "runtime \<Rightarrow> jsval \<Rightarrow> jsnum option" where
  "parseDateCell rt v =
     (if v = JNull \<or> v = JUndefined \<or> v = JStr '''' then None
      else case v of
          JDate t \<Rightarrow> if t \<noteq> NaN then Some t else parseDateString rt v
        | JNum n \<Rightarrow> (let d = excelSerialToDate n in if d = NaN then None else Some d)
        | _ \<Rightarrow> parseDateString rt v)"

text \<open>\<open>/^(\d{1,2}):(\d{2})(?::(\d{2}))?$/\<close>.\<close>

definition rx_time :: rx where
  "rx_time =
     Seq Bol (Seq (Grp 1 (Seq (Cls is_digit) (Opt (Cls is_digit))))
       (Seq (Chr CHR '':'') (Seq (Grp 2 (Seq (Cls is_digit) (Cls is_digit)))
         (Seq (Opt (Seq (Chr CHR '':'') (Grp 3 (Seq (Cls is_digit) (Cls is_digit))))) Eol))))"

text \<open>\<open>Number(g || 0)\<close> on a capture.\<close>

definition group_number :: "runtime \<Rightarrow> string option \<Rightarrow> jsnum" where
  "group_number rt g =
     (case g of None \<Rightarrow> Fin 0 | Some s \<Rightarrow> if s = [] then Fin 0 else string_to_num rt s)"

definition parseTimeToMs :: "runtime \<Rightarrow> jsval \<Rightarrow> jsnum" where
  "parseTimeToMs rt v =
     (if v = JNull \<or> v = JUndefined \<or> v = JStr '''' then Fin 0
      else case v of
          JNum n \<Rightarrow> js_round (js_mul (js_mul n (Fin 86400)) (Fin 1000))
        | _ \<Rightarrow>
          (let s = trim (to_String rt v) in
           case rx_match rx_time s of
             Some m \<Rightarrow>
               (let hh = group_number rt (rx_group m 1);
                    mm = group_number rt (rx_group m 2);
                    ss = group_number rt (rx_group m 3)
                in js_mul (js_add (js_add (js_mul hh (Fin 3600)) (js_mul mm (Fin 60))) ss) (Fin 1000))
           | None \<Rightarrow>
               (let d = date_parse rt (''1970-01-01T'' @ s @ ''Z'')
                in if d \<noteq> NaN
                   then js_add (js_add (js_mul (getUTCHours d) (Fin 3600000))
                                       (js_mul (getUTCMinutes d) (Fin 60000)))
                               (js_mul (getUTCSeconds d) (Fin 1000))
                   else Fin 0)))"

text \<open>
  The fields that movement records and snapshot records share, and the cleaned movement
  record. \<open>Post_DateTime\<close> is \<open>null\<close> or a date, which the sum of the posting date and the
  time of entry may leave invalid (time value NaN).
\<close>

record sku =
  Plant :: string
  Material :: string
  Material_Description :: string
  Storage_Location :: string
  Key :: string

record movement = sku +
  Movement_Type :: string
  Movement_Type_Text :: string
  Posting_Date :: "jsnum option"
  Time_of_Entry :: jsval
  Post_DateTime :: "jsnum option"
  Qty :: jsnum

definition cleanRow :: "runtime \<Rightarrow> int \<Rightarrow> int \<Rightarrow> obj \<Rightarrow> movement" where
  "cleanRow rt matPad slocPad r =
     (let plant = normIntish rt (get_prop r ''Plant'');
          material = normMaterial rt (get_prop r ''Material'') matPad;
          sloc = normSloc rt (get_prop r ''Storage Location'') slocPad;
          postDate = parseDateCell rt (get_prop r ''Posting Date'');
          timeMs = parseTimeToMs rt (get_prop r ''Time of Entry'');
          postDT = (case postDate of None \<Rightarrow> None | Some t \<Rightarrow> Some (time_clip (js_add t timeMs)));
          mvt = trim (to_String rt (get_prop r ''Movement Type''));
          mvtTxt = trim (to_String rt (get_prop r ''Movement Type Text''));
          qty = safeNumber rt (get_prop r ''Qty in unit of entry'');
          key = makeKey plant material sloc
      in \<lparr>Plant = plant,
          Material = material,
          Material_Description =
            trim (to_String rt (nullish_or (get_prop r ''Material Description'') (JStr ''''))),
          Storage_Location = sloc,
          Key = key,
          Movement_Type = mvt,
          Movement_Type_Text = mvtTxt,
          Posting_Date = postDate,
          Time_of_Entry = get_prop r ''Time of Entry'',
          Post_DateTime = postDT,
          Qty = qty\<rparr>)"

text \<open>The comparator of the cleaner's sort: by key, then by time (\<open>null\<close> as zero).\<close>

definition time_or0 :: "jsnum option \<Rightarrow> jsnum" where
  "time_or0 d = (case d of None \<Rightarrow> Fin 0 | Some t \<Rightarrow> t)"

definition mb51Compare :: "movement \<Rightarrow> movement \<Rightarrow> jsnum" where
  "mb51Compare a b =
     (if Key a < Key b then Fin (- 1)
      else if Key b < Key a then Fin 1
      else js_sub (time_or0 (Post_DateTime a)) (time_or0 (Post_DateTime b)))"

text \<open>The column names of the first row, trimmed; none when there is no row.\<close>

definition header_cols :: "obj list \<Rightarrow> string list" where
  "header_cols rows = map trim (Object_keys (case rows of [] \<Rightarrow> [] | r # _ \<Rightarrow> r))"

definition cleanMb51 :: "runtime \<Rightarrow> obj list \<Rightarrow> int \<Rightarrow> int \<Rightarrow> error + movement list" where
  "cleanMb51 rt rows matPad slocPad =
     (let cols = header_cols rows;
          missing = filter (\<lambda>c. c \<notin> set cols) MB51_REQUIRED
      in if missing \<noteq> [] then Inl (Error (''MB51 missing columns: '' @ join '', '' missing))
         else Inr (js_sort mb51Compare (map (cleanRow rt matPad slocPad) rows)))"

section \<open>Snapshot block parser\<close>

text \<open>
  \<open>m[n]\<close> where an unset group is read as the empty string (both are falsy, and the
  normalizers give the empty string for both).
\<close>

definition grp :: "(nat \<times> string) list \<Rightarrow> nat \<Rightarrow> string" where
  "grp m n = (case rx_group m n of None \<Rightarrow> [] | Some g \<Rightarrow> g)"

text \<open>
  \<open>/([0-9]+(?:\.[0-9]+)?)\s*(-)?\s*(EA|PC|ST|KG|L|)\b/i\<close>, \<open>/Plant\s+(\d+)/\<close>,
  \<open>/Material\s+(\d+)/\<close> and \<open>/Description\s+(.*)$/\<close>.
\<close>

definition rx_unit :: rx where
  "rx_unit =
     Alt (Lit2 [(CHR ''E'', CHR ''e''), (CHR ''A'', CHR ''a'')])
    (Alt (Lit2 [(CHR ''P'', CHR ''p''), (CHR ''C'', CHR ''c'')])
    (Alt (Lit2 [(CHR ''S'', CHR ''s''), (CHR ''T'', CHR ''t'')])
    (Alt (Lit2 [(CHR ''K'', CHR ''k''), (CHR ''G'', CHR ''g'')])
    (Alt (Lit2 [(CHR ''L'', CHR ''l'')]) Eps))))"

definition rx_qty :: rx where
  "rx_qty =
     Seq (Grp 1 (Seq (Plus (Cls is_digit)) (Opt (Seq (Chr CHR ''.'') (Plus (Cls is_digit))))))
    (Seq (Star (Cls is_space))
    (Seq (Opt (Grp 2 (Chr CHR ''-'')))
    (Seq (Star (Cls is_space))
    (Seq (Grp 3 rx_unit) WordB))))"

definition rx_plant :: rx where
  "rx_plant = Seq (Lit ''Plant'') (Seq (Plus (Cls is_space)) (Grp 1 (Plus (Cls is_digit))))"

definition rx_material :: rx where
  "rx_material = Seq (Lit ''Material'') (Seq (Plus (Cls is_space)) (Grp 1 (Plus (Cls is_digit))))"

definition rx_description :: rx where
  "rx_description =
     Seq (Lit ''Description'') (Seq (Plus (Cls is_space)) (Seq (Grp 1 (Star (Cls is_dot))) Eol))"

definition parseQtyLine :: "runtime \<Rightarrow> string \<Rightarrow> string \<Rightarrow> jsnum option" where
  "parseQtyLine rt prefix s =
     (if \<not> startsWith (trim s) prefix then None
      else let tail = trim (drop (length prefix) (trim s)) in
        case rx_match rx_qty tail of
          None \<Rightarrow> None
        | Some m \<Rightarrow>
            (let num = string_to_num rt (grp m 1);
                 num = (if rx_group m 2 = Some ''-'' then js_neg num else num)
             in if isFinite num then Some num else None))"

record snapshot = sku +
  SAP_SOH_MB5B :: jsnum

text \<open>
  The scan of a block's column-0 lines: the state is \<open>material\<close>, \<open>desc\<close> and
  \<open>closeQty\<close> (\<open>null\<close> until found).
\<close>

definition scanLine :: "runtime \<Rightarrow> string \<Rightarrow> string \<times> string \<times> jsnum option \<Rightarrow> string \<times> string \<times> jsnum option" where
  "scanLine rt line st =
     (case st of (material, desc, closeQty) \<Rightarrow>
        (let material =
               (if material = [] \<and> str_includes line ''Material''
                then (case rx_match rx_material line of None \<Rightarrow> material | Some mm \<Rightarrow> grp mm 1)
                else material);
             desc =
               (if desc = [] \<and> startsWith (trim line) ''Description''
                then (case rx_match rx_description line of None \<Rightarrow> desc | Some dm \<Rightarrow> trim (grp dm 1))
                else desc);
             closeQty =
               (if closeQty = None then parseQtyLine rt ''Stock on 31.12.9999'' line else closeQty)
         in (material, desc, closeQty)))"

text \<open>\<open>typeof v === "string"\<close>.\<close>

fun is_string :: "jsval \<Rightarrow> bool" where
  "is_string (JStr _) = True"
| "is_string _ = False"

text \<open>
  The inner loop of the storage-location inference, over the rows from \<open>rr\<close> on, and
  the outer loop, which looks for the header row and hands the rows from two below it to
  the inner loop.
\<close>

fun collectSlocs :: "runtime \<Rightarrow> int \<Rightarrow> jsval list list \<Rightarrow> string list \<Rightarrow> string list" where
  "collectSlocs rt slocPad [] slocs = slocs"
| "collectSlocs rt slocPad (row # rows) slocs =
     (let v0 = nullish_or (cell row 0) (JStr '''') in
      if is_string v0 \<and> startsWith (trim (to_String rt v0)) ''Plant'' then slocs
      else let loca = cell row 1 in
        collectSlocs rt slocPad rows
          (if loca \<noteq> JNull \<and> loca \<noteq> JUndefined \<and> trim (to_String rt loca) \<noteq> []
           then set_add slocs (normSloc rt loca slocPad) else slocs))"

fun findSlocs :: "runtime \<Rightarrow> int \<Rightarrow> jsval list list \<Rightarrow> string list" where
  "findSlocs rt slocPad [] = []"
| "findSlocs rt slocPad (row # rows) =
     (let c1 = nullish_or (cell row 1) (JStr '''');
          c2 = nullish_or (cell row 2) (JStr '''')
      in if trim (to_String rt c1) = ''Loca'' \<and> trim (to_String rt c2) = ''MvT''
         then collectSlocs rt slocPad (drop 1 rows) []
         else findSlocs rt slocPad rows)"

text \<open>The body of the loop over the blocks; \<open>None\<close> is its \<open>continue\<close>.\<close>

definition parseBlock :: "runtime \<Rightarrow> int \<Rightarrow> int \<Rightarrow> jsval list list \<Rightarrow> snapshot option" where
  "parseBlock rt matPad slocPad block =
     (let lines0 = filter (\<lambda>x. trim x \<noteq> [])
                     (map (\<lambda>r. if cell r 0 \<noteq> JUndefined then to_String rt (cell r 0) else []) block)
      in case lines0 of
           [] \<Rightarrow> None
         | plantLine # _ \<Rightarrow>
           (let plant = (case rx_match rx_plant plantLine of None \<Rightarrow> [] | Some pm \<Rightarrow> grp pm 1);
                (material, desc, closeQty) = fold (scanLine rt) (take 140 lines0) ([], [], None);
                slocs = findSlocs rt slocPad block;
                sloc = (if length slocs = 1 then slocs ! 0
                        else if 1 < length slocs then ''MULTI'' else []);
                plantN = normIntish rt (JStr plant);
                matN = normMaterial rt (JStr material) matPad;
                slocN = (if sloc = ''MULTI'' then ''MULTI'' else normSloc rt (JStr sloc) slocPad)
            in Some \<lparr>Plant = plantN,
                     Material = matN,
                     Material_Description = desc,
                     Storage_Location = slocN,
                     Key = makeKey plantN matN slocN,
                     SAP_SOH_MB5B = (case closeQty of None \<Rightarrow> Fin 0 | Some q \<Rightarrow> q)\<rparr>))"

text \<open>The removal of later records with a key already seen.\<close>

fun dropDuplicates :: "snapshot list \<Rightarrow> string list \<Rightarrow> snapshot list" where
  "dropDuplicates [] seen = []"
| "dropDuplicates (b # bs) seen =
     (if Key b \<in> set seen then dropDuplicates bs seen
      else b # dropDuplicates bs (Key b # seen))"

definition parseMb5bBlocks :: "runtime \<Rightarrow> jsval list list \<Rightarrow> int \<Rightarrow> int \<Rightarrow> error + snapshot list" where
  "parseMb5bBlocks rt rows2d matPad slocPad =
     (let col0 = map (\<lambda>r. trim (to_String rt (if cell r 0 \<noteq> JUndefined then cell r 0 else JStr ''''))) rows2d;
          plantRows = filter (\<lambda>i. startsWith (col0 ! i) ''Plant'') [0..<length col0]
      in if plantRows = []
         then Inl (Error ''MB5B format not recognized (no 'Plant' blocks found). Export MB5B in detail/block format.'')
         else let bounds = zip plantRows (tl plantRows @ [length rows2d]);
                  blocks = List.map_filter
                             (\<lambda>(start, end). parseBlock rt matPad slocPad (take (end - start) (drop start rows2d)))
                             bounds
              in Inr (dropDuplicates blocks []))"

section \<open>Movement replay: last events\<close>

text \<open>
  The scan of \<open>lastEvent\<close>: \<open>lastMap\<close> (the source's \<open>last\<close>) maps a key to the row kept
  for it. A row without a date (\<open>null\<close>) is skipped; a row with an invalid date is not, and
  its time is NaN. Only rows with a date are stored, so the row read back from the map has
  one: the branch for a stored row without a date is never taken.
\<close>

fun lastEvent_scan :: "string list \<Rightarrow> movement list \<Rightarrow> (string \<rightharpoonup> movement) \<Rightarrow> (string \<rightharpoonup> movement)" where
  "lastEvent_scan mvts [] lastMap = lastMap"
| "lastEvent_scan mvts (r # rs) lastMap =
     (if Movement_Type r \<notin> set mvts then lastEvent_scan mvts rs lastMap
      else case Post_DateTime r of
          None \<Rightarrow> lastEvent_scan mvts rs lastMap
        | Some t \<Rightarrow>
          (case lastMap (Key r) of
             None \<Rightarrow> lastEvent_scan mvts rs (lastMap(Key r \<mapsto> r))
           | Some cur \<Rightarrow>
             (case Post_DateTime cur of
                None \<Rightarrow> lastEvent_scan mvts rs lastMap
              | Some tc \<Rightarrow>
                  if js_lt tc t then lastEvent_scan mvts rs (lastMap(Key r \<mapsto> r))
                  else lastEvent_scan mvts rs lastMap)))"

text \<open>The facts recorded for a key, under the label's field names.\<close>

definition event_fields :: "string \<Rightarrow> movement \<Rightarrow> obj" where
  "event_fields label r =
     [(label @ ''_DT'', (case Post_DateTime r of None \<Rightarrow> JNull | Some t \<Rightarrow> JDate t)),
      (label @ ''_Qty'', JNum (Qty r)),
      (label @ ''_MvT'', JStr (Movement_Type r)),
      (label @ ''_Txt'', JStr (Movement_Type_Text r))]"

definition lastEvent :: "movement list \<Rightarrow> string list \<Rightarrow> string \<Rightarrow> (string \<rightharpoonup> obj)" where
  "lastEvent mb51 mvts label =
     (\<lambda>key. map_option (event_fields label) (lastEvent_scan mvts mb51 Map.empty key))"

section \<open>Expectation classifier\<close>

text \<open>
  The fields of the joined row that the classifier reads, on top of the snapshot's, and
  the classifier's result.
\<close>

record row = snapshot +
  Expected_SOH_MB51 :: jsnum
  Delta_SAP_minus_Expected :: jsnum
  Days_Since_LastCount :: jsnum
  Days_Since_LastReceipt :: jsnum
  Days_Since_LastSale :: jsnum
  Loss702_Sum :: jsnum

record expRes =
  Expectation :: string
  Summary :: string

text \<open>
  The rightwards arrow of three rationale texts, in UTF-8: the one character of the
  program's texts outside ASCII. No operation of the program looks into these texts.
\<close>

definition arrow :: string where
  "arrow = [CHR 0xE2, CHR 0x86, CHR 0x92]"

text \<open>
  The rules run in the order of the source on the pair of \<open>base\<close> and \<open>reasons\<close>. Each
  of the definitions below is one \<open>if\<close> block of \<open>expectationAndReason\<close>.
\<close>

definition rule_delta :: "runtime \<Rightarrow> jsnum \<Rightarrow> jsnum \<Rightarrow> string \<times> string list" where
  "rule_delta rt delta tol =
     (if js_le (js_abs delta) tol
      then (''HIGH'', [''SAP SOH matches movement replay (consistent).''])
      else ((if js_le (js_abs delta) (Fin 5) then ''MEDIUM'' else ''LOW''),
            [''SAP SOH differs from movement replay by '' @ toFixed2 rt delta @ '' (mismatch).'']))"

definition rule_receipt :: "jsnum \<Rightarrow> string \<times> string list \<Rightarrow> string \<times> string list" where
  "rule_receipt dRec st =
     (case st of (base, reasons) \<Rightarrow>
        if isFinite dRec \<and> js_le dRec (Fin 14)
        then ((if base = ''MEDIUM'' then ''HIGH'' else base),
              reasons @ [''Recent receipt '' @ arrow @ '' stock likely exists somewhere (backroom possible).''])
        else if \<not> isFinite dRec \<or> js_lt (Fin 90) dRec
        then ((if base = ''HIGH'' then ''MEDIUM'' else base),
              reasons @ [''No recent receipts '' @ arrow @ '' less likely to be in backroom.''])
        else (base, reasons))"

definition rule_sale :: "jsnum \<Rightarrow> string \<times> string list \<Rightarrow> string \<times> string list" where
  "rule_sale dSale st =
     (case st of (base, reasons) \<Rightarrow>
        if isFinite dSale \<and> js_le dSale (Fin 14)
        then (base, reasons @ [''Recent sales '' @ arrow @ '' item is active (stock movement ongoing).''])
        else (base, reasons))"

definition rule_loss :: "runtime \<Rightarrow> jsnum \<Rightarrow> string \<times> string list \<Rightarrow> string \<times> string list" where
  "rule_loss rt loss702 st =
     (case st of (base, reasons) \<Rightarrow>
        if js_lt loss702 (Fin 0)
        then ((if base = ''HIGH'' then ''MEDIUM'' else if base = ''MEDIUM'' then ''LOW'' else base),
              reasons @ [''702 loss history ('' @ toFixed2 rt loss702 @ '') '' @ arrow
                         @ '' higher chance of shrink / missing stock.''])
        else (base, reasons))"

definition rule_count :: "jsnum \<Rightarrow> string \<times> string list \<Rightarrow> string \<times> string list" where
  "rule_count dCount st =
     (case st of (base, reasons) \<Rightarrow>
        if \<not> isFinite dCount
        then ((if base = ''HIGH'' then ''MEDIUM'' else base),
              reasons @ [''No 701/702 count event found '' @ arrow @ '' confidence weaker.''])
        else if js_lt (Fin 180) dCount
        then ((if base = ''HIGH'' then ''MEDIUM'' else base),
              reasons @ [''Last count is old '' @ arrow @ '' more uncertainty.''])
        else (base, reasons))"

definition expectationAndReason :: "runtime \<Rightarrow> 'a row_scheme \<Rightarrow> jsnum \<Rightarrow> expRes" where
  "expectationAndReason rt row tol =
     (let sap = or0 (SAP_SOH_MB5B row);
          delta = or0 (Delta_SAP_minus_Expected row);
          dCount = Days_Since_LastCount row;
          dRec = Days_Since_LastReceipt row;
          dSale = Days_Since_LastSale row;
          loss702 = or0 (Loss702_Sum row)
      in if js_le sap (Fin 0)
         then \<lparr>Expectation = ''N/A'', Summary = ''SAP shows 0 on-hand (no stock expected).''\<rparr>
         else case rule_count dCount (rule_loss rt loss702 (rule_sale dSale
                     (rule_receipt dRec (rule_delta rt delta tol)))) of
                (base, reasons) \<Rightarrow>
                  \<lparr>Expectation = base, Summary = join '' '' (take 3 reasons)\<rparr>)"

section \<open>The final sort of the reconciled rows\<close>

text \<open>
  A reconciled row is the joined row with the two fields of the classifier's result
  attached. \<open>order[t] ?? 9\<close> is the rank of a tier: a string that is none of the four tiers
  has no entry in \<open>order\<close>.
\<close>

type_synonym reconciled = "expRes row_scheme"

definition tier_order :: "(string \<times> int) list" where
  "tier_order = [(''LOW'', 0), (''MEDIUM'', 1), (''HIGH'', 2), (''N/A'', 3)]"

definition tier_rank :: "string \<Rightarrow> int" where
  "tier_rank t = (case map_of tier_order t of None \<Rightarrow> 9 | Some n \<Rightarrow> n)"

definition rowCompare :: "reconciled \<Rightarrow> reconciled \<Rightarrow> jsnum" where
  "rowCompare a b =
     (let ap = (if js_lt (Fin 0) (SAP_SOH_MB5B a) then 1 else 0 :: int);
          bp = (if js_lt (Fin 0) (SAP_SOH_MB5B b) then 1 else 0 :: int)
      in if ap \<noteq> bp then Fin (of_int (bp - ap))
         else let ar = tier_rank (Expectation (row.more a));
                  br = tier_rank (Expectation (row.more b))
              in if ar \<noteq> br then Fin (of_int (ar - br))
                 else js_sub (or0 (SAP_SOH_MB5B b)) (or0 (SAP_SOH_MB5B a)))"

definition sortRows :: "reconciled list \<Rightarrow> reconciled list" where
  "sortRows rows = js_sort rowCompare rows"

section \<open>Notions used to state the claims\<close>

text \<open>
  The candidates of a key for one category of \<open>lastEvent\<close>, in the order of the log: the
  records with that key, a movement type of the category and a date. \<open>spec_first_latest\<close>
  says that a record is the first of the candidates with the greatest time: every candidate
  before it is strictly earlier, none after it is later.
\<close>

definition event_candidates :: "string list \<Rightarrow> string \<Rightarrow> movement list \<Rightarrow> movement list" where
  "event_candidates mvts k mb51 =
     filter (\<lambda>r. Key r = k \<and> Movement_Type r \<in> set mvts \<and> Post_DateTime r \<noteq> None) mb51"

definition event_time :: "movement \<Rightarrow> jsnum" where
  "event_time r = time_or0 (Post_DateTime r)"

definition spec_first_latest :: "movement list \<Rightarrow> movement \<Rightarrow> bool" where
  "spec_first_latest cands r =
     (\<exists>pre post. cands = pre @ r # post \<and>
        (\<forall>x \<in> set pre. js_lt (event_time x) (event_time r)) \<and>
        (\<forall>x \<in> set post. js_le (event_time x) (event_time r)))"

text \<open>
  The storage-location inference in the words of the specification: the header row is the
  first row whose second and third cells are "Loca" and "MvT"; of the rows below it,
  \<open>skipped\<close> are passed over, and the rest is read up to the next row that starts a
  block; the values are the normalized second cells that are not blank. The block's
  storage location is the one distinct value, "MULTI" for several, empty for none.
\<close>

definition is_header_row :: "runtime \<Rightarrow> jsval list \<Rightarrow> bool" where
  "is_header_row rt row =
     (trim (to_String rt (nullish_or (cell row 1) (JStr ''''))) = ''Loca'' \<and>
      trim (to_String rt (nullish_or (cell row 2) (JStr ''''))) = ''MvT'')"

definition is_plant_row :: "runtime \<Rightarrow> jsval list \<Rightarrow> bool" where
  "is_plant_row rt row =
     (is_string (nullish_or (cell row 0) (JStr '''')) \<and>
      startsWith (trim (to_String rt (nullish_or (cell row 0) (JStr '''')))) ''Plant'')"

definition has_location :: "runtime \<Rightarrow> jsval list \<Rightarrow> bool" where
  "has_location rt row =
     (cell row 1 \<noteq> JNull \<and> cell row 1 \<noteq> JUndefined \<and> trim (to_String rt (cell row 1)) \<noteq> [])"

definition spec_sloc_values :: "runtime \<Rightarrow> nat \<Rightarrow> int \<Rightarrow> jsval list list \<Rightarrow> string list" where
  "spec_sloc_values rt skipped slocPad block =
     (case dropWhile (\<lambda>row. \<not> is_header_row rt row) block of
        [] \<Rightarrow> []
      | header # below \<Rightarrow>
          map (\<lambda>row. normSloc rt (cell row 1) slocPad)
            (filter (has_location rt)
              (takeWhile (\<lambda>row. \<not> is_plant_row rt row) (drop skipped below))))"

definition spec_block_sloc :: "runtime \<Rightarrow> nat \<Rightarrow> int \<Rightarrow> jsval list list \<Rightarrow> string" where
  "spec_block_sloc rt skipped slocPad block =
     (case remdups (spec_sloc_values rt skipped slocPad block) of
        [] \<Rightarrow> []
      | [v] \<Rightarrow> v
      | _ # _ # _ \<Rightarrow> ''MULTI'')"

text \<open>
  The order of the final sort in the words of the specification, for a row \<open>a\<close> that
  stands before a row \<open>b\<close>: a row without stock never stands before a row with stock;
  within a group the tier ranks ascend; within a tier the reported quantities descend.
  Two rows tie when the comparator puts neither behind the other.
\<close>

definition spec_in_order :: "reconciled \<Rightarrow> reconciled \<Rightarrow> bool" where
  "spec_in_order a b =
     ((js_lt (Fin 0) (SAP_SOH_MB5B b) \<longrightarrow> js_lt (Fin 0) (SAP_SOH_MB5B a)) \<and>
      (js_lt (Fin 0) (SAP_SOH_MB5B a) = js_lt (Fin 0) (SAP_SOH_MB5B b) \<longrightarrow>
         tier_rank (Expectation (row.more a)) \<le> tier_rank (Expectation (row.more b))) \<and>
      (js_lt (Fin 0) (SAP_SOH_MB5B a) = js_lt (Fin 0) (SAP_SOH_MB5B b) \<and>
       tier_rank (Expectation (row.more a)) = tier_rank (Expectation (row.more b)) \<longrightarrow>
         js_le (or0 (SAP_SOH_MB5B b)) (or0 (SAP_SOH_MB5B a))))"

definition spec_tie :: "reconciled \<Rightarrow> reconciled \<Rightarrow> bool" where
  "spec_tie a b = (\<not> js_lt (Fin 0) (rowCompare a b) \<and> \<not> js_lt (Fin 0) (rowCompare b a))"

text \<open>
  For the proof of the sort: the place of a number on the number line with its two
  infinities, and the key that the comparator orders the rows by.
\<close>

fun num_level :: "jsnum \<Rightarrow> int \<times> real" where
  "num_level NegInf = (- 1, 0)"
| "num_level (Fin a) = (0, a)"
| "num_level PosInf = (1, 0)"
| "num_level NaN = (0, 0)"

definition row_key :: "reconciled \<Rightarrow> int \<times> int \<times> int \<times> real" where
  "row_key r =
     ((if js_lt (Fin 0) (SAP_SOH_MB5B r) then 0 else 1),
      tier_rank (Expectation (row.more r)),
      - fst (num_level (or0 (SAP_SOH_MB5B r))),
      - snd (num_level (or0 (SAP_SOH_MB5B r))))"

section \<open>Example inputs\<close>

text \<open>
  A runtime for the examples: it reads a string of digits as the number it writes, and no
  string as a date.
\<close>

definition demo_runtime :: runtime where
  "demo_runtime =
     \<lparr>num_to_string = (\<lambda>n. ''0''), date_to_string = (\<lambda>t. ''Invalid Date''),
      string_to_num = (\<lambda>s. if s \<noteq> [] \<and> list_all is_digit s
                            then Fin (of_nat (foldl (\<lambda>n c. 10 * n + (of_char c - 48)) 0 s)) else NaN),
      date_parse = (\<lambda>s. NaN), toFixed2 = (\<lambda>n. ''0.00'')\<rparr>"

text \<open>A joined row with a given reported quantity and loss sum.\<close>

definition demo_row :: "jsnum \<Rightarrow> jsnum \<Rightarrow> row" where
  "demo_row sap loss =
     \<lparr>Plant = ''1000'', Material = ''000123'', Material_Description = ''Widget'',
      Storage_Location = ''0001'', Key = ''1000|000123|0001'', SAP_SOH_MB5B = sap,
      Expected_SOH_MB51 = Fin 12, Delta_SAP_minus_Expected = js_sub sap (Fin 12),
      Days_Since_LastCount = Fin 3, Days_Since_LastReceipt = Fin 2, Days_Since_LastSale = NaN,
      Loss702_Sum = loss\<rparr>"

text \<open>A reconciled row with a given material, reported quantity and tier.\<close>

definition demo_reconciled :: "string \<Rightarrow> jsnum \<Rightarrow> string \<Rightarrow> reconciled" where
  "demo_reconciled material sap tier =
     \<lparr>Plant = ''1000'', Material = material, Material_Description = ''Widget'',
      Storage_Location = ''0001'', Key = makeKey ''1000'' material ''0001'', SAP_SOH_MB5B = sap,
      Expected_SOH_MB51 = Fin 0, Delta_SAP_minus_Expected = sap,
      Days_Since_LastCount = NaN, Days_Since_LastReceipt = NaN, Days_Since_LastSale = NaN,
      Loss702_Sum = Fin 0, \<dots> = \<lparr>Expectation = tier, Summary = []\<rparr>\<rparr>"

text \<open>
  A row of the movement log with a given posting-date cell and time-of-entry cell, the
  same row with a column name that needs trimming, and the cleaned record of such a row.
\<close>

definition mb51_row :: "jsval \<Rightarrow> jsval \<Rightarrow> obj" where
  "mb51_row date time =
     [(''Plant'', JStr ''1000''), (''Material'', JStr ''123''), (''Material Description'', JStr ''Widget''),
      (''Storage Location'', JStr ''1''), (''Movement Type'', JStr ''101''),
      (''Movement Type Text'', JStr ''GR goods receipt''), (''Posting Date'', date),
      (''Time of Entry'', time), (''Qty in unit of entry'', JStr ''10'')]"

definition demo_mb51_row :: obj where
  "demo_mb51_row =
     [(''Plant'', JStr ''1000''), (''Material '', JNum (Fin 123)), (''Material Description'', JStr ''Widget''),
      (''Storage Location'', JStr ''1''), (''Movement Type'', JStr ''101''),
      (''Movement Type Text'', JStr ''GR goods receipt''), (''Posting Date'', JDate (Fin 0)),
      (''Time of Entry'', JStr ''12:30:00''), (''Qty in unit of entry'', JStr ''1,000'')]"

definition demo_movement :: "jsnum \<Rightarrow> jsval \<Rightarrow> jsnum \<Rightarrow> jsnum \<Rightarrow> movement" where
  "demo_movement date time dt qty =
     \<lparr>Plant = ''1000'', Material = ''123'', Material_Description = ''Widget'',
      Storage_Location = ''0001'', Key = ''1000|123|0001'', Movement_Type = ''101'',
      Movement_Type_Text = ''GR goods receipt'', Posting_Date = Some date, Time_of_Entry = time,
      Post_DateTime = Some dt, Qty = qty\<rparr>"

text \<open>A block of the snapshot report with a detail table of two location cells.\<close>

definition demo_block :: "jsval list list" where
  "demo_block =
     [[JStr ''Plant 1000''], [JStr ''Material 123''], [JStr ''Description Widget''],
      [JStr ''Stock on 31.12.9999 12 EA''],
      [JStr '''', JStr ''Loca'', JStr ''MvT''], [JStr '''', JStr ''----''],
      [JStr '''', JStr ''1''], [JStr '''', JStr '' 0001 '']]"

section \<open>The regular expressions of the normalizer\<close>

lemma rx_run_star_cls:
  "rx_run (Star (Cls P)) (b, s, caps) =
     map (\<lambda>k. (rev (take k s) @ b, drop k s, caps)) (rev [0..<Suc (length (takeWhile P s))])"
proof (induction s arbitrary: b)
  case Nil
  show ?case by simp
next
  case (Cons c cs)
  show ?case
  proof (cases "P c")
    case True
    then show ?thesis
      using Cons.IH [of "c # b"]
      apply (simp del: upt_Suc)
      apply (subst (2) upt_conv_Cons)
       apply simp
      apply (simp del: upt_Suc add: map_Suc_upt [symmetric] rev_map)
      done
  next
    case False
    then show ?thesis by simp
  qed
qed

lemma set_rx_run_star_cls:
  "set (rx_run (Star (Cls P)) (b, s, caps)) =
     {(rev (take k s) @ b, drop k s, caps) | k. k \<le> length (takeWhile P s)}"
  unfolding rx_run_star_cls by (auto simp del: upt_Suc simp: less_Suc_eq_le)

lemma set_rx_run_plus_cls:
  "set (rx_run (Plus (Cls P)) (b, s, caps)) =
     {(rev (take k s) @ b, drop k s, caps) | k. 1 \<le> k \<and> k \<le> length (takeWhile P s)}"
proof (cases s)
  case Nil
  then show ?thesis by (simp add: Plus_def)
next
  case (Cons c cs)
  show ?thesis
  proof (cases "P c")
    case True
    have "{(rev (take k cs) @ c # b, drop k cs, caps) | k. k \<le> length (takeWhile P cs)} =
          {(rev (take k (c # cs)) @ b, drop k (c # cs), caps) | k. 1 \<le> k \<and> k \<le> Suc (length (takeWhile P cs))}"
      (is "?L = ?R")
    proof (intro set_eqI iffI)
      fix x assume "x \<in> ?L"
      then obtain k where "k \<le> length (takeWhile P cs)" "x = (rev (take k cs) @ c # b, drop k cs, caps)" by blast
      then show "x \<in> ?R" by (intro CollectI exI [of _ "Suc k"]) simp
    next
      fix x assume "x \<in> ?R"
      then obtain k where k: "1 \<le> k" "k \<le> Suc (length (takeWhile P cs))"
        "x = (rev (take k (c # cs)) @ b, drop k (c # cs), caps)" by blast
      then obtain j where "k = Suc j" by (cases k) auto
      with k show "x \<in> ?L" by (intro CollectI exI [of _ j]) simp
    qed
    with True Cons show ?thesis
      by (simp add: Plus_def set_rx_run_star_cls del: rx_run.simps(6))
  next
    case False
    with Cons show ?thesis by (simp add: Plus_def)
  qed
qed

lemma rx_search_None_iff:
  "rx_search r b s = None \<longleftrightarrow> (\<forall>k \<le> length s. rx_run r (rev (take k s) @ b, drop k s, []) = [])"
proof (induction s arbitrary: b)
  case Nil
  show ?case by (simp split: list.splits)
next
  case (Cons c cs)
  show ?case
  proof
    assume a: "rx_search r b (c # cs) = None"
    then have 0: "rx_run r (b, c # cs, []) = []" and 1: "rx_search r (c # b) cs = None"
      by (auto split: list.splits)
    show "\<forall>k\<le>length (c # cs). rx_run r (rev (take k (c # cs)) @ b, drop k (c # cs), []) = []"
    proof (intro allI impI)
      fix k assume "k \<le> length (c # cs)"
      then show "rx_run r (rev (take k (c # cs)) @ b, drop k (c # cs), []) = []"
        using 0 1 Cons.IH [of "c # b"] by (cases k) auto
    qed
  next
    assume a: "\<forall>k\<le>length (c # cs). rx_run r (rev (take k (c # cs)) @ b, drop k (c # cs), []) = []"
    from a [rule_format, of 0] have 0: "rx_run r (b, c # cs, []) = []" by simp
    have "\<forall>k\<le>length cs. rx_run r (rev (take k cs) @ c # b, drop k cs, []) = []"
    proof (intro allI impI)
      fix k assume "k \<le> length cs"
      then show "rx_run r (rev (take k cs) @ c # b, drop k cs, []) = []"
        using a [rule_format, of "Suc k"] by simp
    qed
    then have "rx_search r (c # b) cs = None" using Cons.IH [of "c # b"] by simp
    with 0 show "rx_search r b (c # cs) = None" by simp
  qed
qed

lemma rx_test_anchored:
  "rx_test (Seq Bol r) s \<longleftrightarrow> rx_run r ([], s, []) \<noteq> []"
proof -
  have *: "rx_run (Seq Bol r) (b, t, []) = (if b = [] then rx_run r (b, t, []) else [])" for b t
    by simp
  have "rx_search (Seq Bol r) [] s = None \<longleftrightarrow> rx_run r ([], s, []) = []"
  proof
    assume "rx_search (Seq Bol r) [] s = None"
    then have "rx_run (Seq Bol r) (rev (take 0 s) @ [], drop 0 s, []) = []"
      unfolding rx_search_None_iff by blast
    then show "rx_run r ([], s, []) = []" by simp
  next
    assume a: "rx_run r ([], s, []) = []"
    show "rx_search (Seq Bol r) [] s = None"
      unfolding rx_search_None_iff
    proof (intro allI impI)
      fix k assume "k \<le> length s"
      show "rx_run (Seq Bol r) (rev (take k s) @ [], drop k s, []) = []"
        using a by (cases k; cases s) (simp_all del: rx_run.simps add: *)
    qed
  qed
  then show ?thesis by (simp add: rx_test_def rx_match_def)
qed

lemma rx_run_Seq_nonempty:
  "rx_run (Seq r1 r2) st \<noteq> [] \<longleftrightarrow> (\<exists>st' \<in> set (rx_run r1 st). rx_run r2 st' \<noteq> [])"
  by auto

lemma rx_test_digits:
  "rx_test rx_digits s \<longleftrightarrow> s \<noteq> [] \<and> (\<forall>c \<in> set s. is_digit c)"
proof -
  have "rx_test rx_digits s \<longleftrightarrow>
        (\<exists>k. 1 \<le> k \<and> k \<le> length (takeWhile is_digit s) \<and> drop k s = [])"
    unfolding rx_digits_def rx_test_anchored rx_run_Seq_nonempty set_rx_run_plus_cls
    by auto
  also have "\<dots> \<longleftrightarrow> s \<noteq> [] \<and> (\<forall>c \<in> set s. is_digit c)"
  proof
    assume "\<exists>k. 1 \<le> k \<and> k \<le> length (takeWhile is_digit s) \<and> drop k s = []"
    then obtain k where k: "1 \<le> k" "k \<le> length (takeWhile is_digit s)" "drop k s = []" by blast
    then have "length (takeWhile is_digit s) = length s"
      using length_takeWhile_le [of is_digit s] by simp
    then have "takeWhile is_digit s = s"
      by (metis takeWhile_eq_take take_all order_refl)
    with k show "s \<noteq> [] \<and> (\<forall>c \<in> set s. is_digit c)"
      by (metis One_nat_def Suc_le_eq length_greater_0_conv less_le_trans takeWhile_eq_all_conv)
  next
    assume "s \<noteq> [] \<and> (\<forall>c \<in> set s. is_digit c)"
    then have tw: "takeWhile is_digit s = s" and len: "1 \<le> length s"
      by (simp_all add: takeWhile_eq_all_conv Suc_le_eq)
    show "\<exists>k. 1 \<le> k \<and> k \<le> length (takeWhile is_digit s) \<and> drop k s = []"
      unfolding tw using len by (intro exI [of _ "length s"]) simp
  qed
  finally show ?thesis .
qed

lemma rx_run_Chr_Seq:
  "rx_run (Seq (Chr c) r) (b, s, caps) =
     (case s of [] \<Rightarrow> [] | x # xs \<Rightarrow> if x = c then rx_run r (x # b, xs, caps) else [])"
  by (cases s) (simp_all add: Chr_def)

lemma rx_run_dot0_tail:
  "rx_run (Seq (Chr CHR ''.'') (Seq (Chr CHR ''0'') Eol)) (b, s, caps) \<noteq> [] \<longleftrightarrow> s = ''.0''"
  unfolding rx_run_Chr_Seq by (auto split: list.splits)

lemma rx_test_int_dot0:
  "rx_test rx_int_dot0 s \<longleftrightarrow>
     takeWhile is_digit s \<noteq> [] \<and> dropWhile is_digit s = ''.0''"
proof -
  have nd: "\<not> is_digit CHR ''.''" by (simp add: is_digit_def)
  have "rx_test rx_int_dot0 s \<longleftrightarrow>
        (\<exists>k. 1 \<le> k \<and> k \<le> length (takeWhile is_digit s) \<and> drop k s = ''.0'')"
    unfolding rx_int_dot0_def rx_test_anchored
    by (subst rx_run_Seq_nonempty)
      (auto simp: set_rx_run_plus_cls rx_run_dot0_tail simp del: rx_run.simps intro: sym)
  also have "\<dots> \<longleftrightarrow> takeWhile is_digit s \<noteq> [] \<and> dropWhile is_digit s = ''.0''"
  proof
    assume "\<exists>k. 1 \<le> k \<and> k \<le> length (takeWhile is_digit s) \<and> drop k s = ''.0''"
    then obtain k where k: "1 \<le> k" "k \<le> length (takeWhile is_digit s)" "drop k s = ''.0''" by blast
    have "k = length (takeWhile is_digit s)"
    proof (rule ccontr)
      assume "k \<noteq> length (takeWhile is_digit s)"
      with k have lt: "k < length (takeWhile is_digit s)" by simp
      then have "is_digit (takeWhile is_digit s ! k)"
        by (meson nth_mem set_takeWhileD)
      moreover have "takeWhile is_digit s ! k = s ! k" using lt by (rule takeWhile_nth)
      moreover have "s ! k = hd (drop k s)"
        using lt length_takeWhile_le [of is_digit s] by (simp add: hd_drop_conv_nth)
      ultimately show False using k nd by simp
    qed
    with k show "takeWhile is_digit s \<noteq> [] \<and> dropWhile is_digit s = ''.0''"
      by (auto simp: dropWhile_eq_drop)
  next
    assume a: "takeWhile is_digit s \<noteq> [] \<and> dropWhile is_digit s = ''.0''"
    then show "\<exists>k. 1 \<le> k \<and> k \<le> length (takeWhile is_digit s) \<and> drop k s = ''.0''"
      by (intro exI [of _ "length (takeWhile is_digit s)"]) (auto simp: dropWhile_eq_drop Suc_le_eq)
  qed
  finally show ?thesis .
qed

section \<open>The identity normalizer and the key\<close>

lemma digit_not_space: "is_digit c \<Longrightarrow> \<not> is_space c"
  by (auto simp: is_digit_def is_space_def)

lemma trim_no_space_ends:
  "s = [] \<or> (\<not> is_space (hd s) \<and> \<not> is_space (last s)) \<Longrightarrow> trim s = s"
proof (cases s)
  case Nil
  then show ?thesis by (simp add: trim_def)
next
  case (Cons c cs)
  assume "s = [] \<or> (\<not> is_space (hd s) \<and> \<not> is_space (last s))"
  with Cons have h: "\<not> is_space c" and l: "\<not> is_space (last (c # cs))" by auto
  from h have 1: "dropWhile is_space (c # cs) = c # cs" by simp
  from l have "\<not> is_space (hd (rev (c # cs)))" by (metis hd_rev)
  then have 2: "dropWhile is_space (rev (c # cs)) = rev (c # cs)"
    by (cases "rev (c # cs)") auto
  show ?thesis unfolding trim_def Cons 1 2 by simp
qed

lemma trim_ends: "trim s = [] \<or> (\<not> is_space (hd (trim s)) \<and> \<not> is_space (last (trim s)))"
proof -
  let ?d = "dropWhile is_space s"
  let ?e = "dropWhile is_space (rev ?d)"
  show ?thesis
  proof (cases "?e = []")
    case True
    then show ?thesis by (simp add: trim_def)
  next
    case False
    then have hd_e: "\<not> is_space (hd ?e)" by (rule hd_dropWhile)
    from False have "rev ?d \<noteq> []" by (metis dropWhile.simps(1))
    then have dne: "?d \<noteq> []" by simp
    then have hd_d: "\<not> is_space (hd ?d)" by (rule hd_dropWhile)
    have "\<exists>zs. rev ?d = zs @ ?e"
      by (metis takeWhile_dropWhile_id)
    then obtain zs where "rev ?d = zs @ ?e" ..
    then have "?d = rev ?e @ rev zs" by (metis rev_append rev_rev_ident)
    with False have "hd (rev ?e) = hd ?d" by (metis hd_append2 rev_is_Nil_conv)
    with hd_d hd_e False show ?thesis
      by (simp add: trim_def last_rev)
  qed
qed

lemma trim_idem: "trim (trim s) = trim s"
  using trim_ends [of s] by (rule trim_no_space_ends)

lemma trim_digits: "\<forall>c \<in> set s. is_digit c \<Longrightarrow> trim s = s"
  by (rule trim_no_space_ends) (cases s; auto simp: digit_not_space)

lemma int_dot0_split:
  assumes "rx_test rx_int_dot0 s"
  shows "split_dot_first s \<noteq> []" and "\<forall>c \<in> set (split_dot_first s). is_digit c"
proof -
  from assms have ne: "takeWhile is_digit s \<noteq> []" and dw: "dropWhile is_digit s = ''.0''"
    by (simp_all add: rx_test_int_dot0)
  have s: "s = takeWhile is_digit s @ ''.0''"
    using takeWhile_dropWhile_id [of is_digit s] dw by simp
  have nd: "\<forall>c \<in> set (takeWhile is_digit s). c \<noteq> CHR ''.''"
    by (auto simp: is_digit_def dest!: set_takeWhileD)
  have "split_dot_first s = takeWhile is_digit s"
    unfolding split_dot_first_def
    by (subst s) (use nd in \<open>simp add: takeWhile_append2\<close>)
  with ne show "split_dot_first s \<noteq> []" and "\<forall>c \<in> set (split_dot_first s). is_digit c"
    by (auto dest: set_takeWhileD)
qed

lemma not_int_dot0_digits: "\<forall>c \<in> set s. is_digit c \<Longrightarrow> \<not> rx_test rx_int_dot0 s"
  by (simp add: rx_test_int_dot0 takeWhile_eq_all_conv [THEN iffD2] dropWhile_eq_Nil_conv [THEN iffD2])

lemma normIntish_digits:
  "\<forall>c \<in> set s. is_digit c \<Longrightarrow> normIntish rt (JStr s) = s"
  by (simp add: normIntish_def trim_digits not_int_dot0_digits)

lemma normIntish_fixed: "normIntish rt (JStr (normIntish rt x)) = normIntish rt x"
proof (cases "x = JNull \<or> x = JUndefined")
  case True
  then show ?thesis by (auto simp: normIntish_def trim_def rx_test_int_dot0)
next
  case False
  let ?t = "trim (to_String rt x)"
  show ?thesis
  proof (cases "rx_test rx_int_dot0 ?t")
    case True
    then have d: "\<forall>c \<in> set (split_dot_first ?t). is_digit c" by (rule int_dot0_split)
    from False True have "normIntish rt x = split_dot_first ?t"
      by (simp add: normIntish_def trim_digits [OF d])
    with d show ?thesis by (simp add: normIntish_digits)
  next
    case nt: False
    with False have "normIntish rt x = ?t" by (simp add: normIntish_def trim_idem)
    with nt show ?thesis by (simp add: normIntish_def trim_idem)
  qed
qed

lemma zfill_digits:
  "\<forall>c \<in> set s. is_digit c \<Longrightarrow> \<forall>c \<in> set (zfill s n). is_digit c"
  by (auto simp: zfill_def is_digit_def)

lemma zfill_nonempty: "s \<noteq> [] \<Longrightarrow> zfill s n \<noteq> []"
  by (simp add: zfill_def)

lemma zfill_idem: "zfill (zfill s n) n = zfill s n"
  by (auto simp: zfill_def)

lemma norm_pad_fixed:
  fixes s :: string and padTo :: int
  assumes s: "normIntish rt (JStr s) = s"
  defines "r \<equiv> (if padTo \<noteq> 0 \<and> rx_test rx_digits s then zfill s padTo else s)"
  shows "normIntish rt (JStr r) = r"
    and "(if padTo \<noteq> 0 \<and> rx_test rx_digits r then zfill r padTo else r) = r"
proof -
  show "normIntish rt (JStr r) = r"
    unfolding r_def using s by (auto simp: rx_test_digits normIntish_digits zfill_digits)
  show "(if padTo \<noteq> 0 \<and> rx_test rx_digits r then zfill r padTo else r) = r"
    unfolding r_def by (auto simp: zfill_idem)
qed

lemma normMaterial_fixed:
  "normMaterial rt (JStr (normMaterial rt x w)) w = normMaterial rt x w"
  using norm_pad_fixed [OF normIntish_fixed, where padTo = w]
  by (simp add: normMaterial_def Let_def)

lemma normSloc_fixed:
  "normSloc rt (JStr (normSloc rt x w)) w = normSloc rt x w"
  using norm_pad_fixed [OF normIntish_fixed, where padTo = w]
  by (simp add: normSloc_def Let_def)

text \<open>
  Claim C7. Each normalizer is idempotent: on every input value (and every pad width for
  the material and storage-location variants), normalizing the result of a normalization
  gives that result back.
\<close>

theorem normalizers_idempotent:
  "normIntish rt (JStr (normIntish rt x)) = normIntish rt x \<and>
   normMaterial rt (JStr (normMaterial rt x w)) w = normMaterial rt x w \<and>
   normSloc rt (JStr (normSloc rt x w)) w = normSloc rt x w"
  by (simp add: normIntish_fixed normMaterial_fixed normSloc_fixed)

lemma takeWhile_upto_sep:
  "c \<notin> set a \<Longrightarrow> takeWhile (\<lambda>z. z \<noteq> c) (a @ c # x) = a"
  by (induction a) auto

lemma sep_split:
  assumes "c \<notin> set a" "c \<notin> set b" "a @ c # x = b @ c # y"
  shows "a = b \<and> x = y"
proof -
  have "takeWhile (\<lambda>z. z \<noteq> c) (a @ c # x) = a" "takeWhile (\<lambda>z. z \<noteq> c) (b @ c # y) = b"
    using assms(1,2) by (simp_all add: takeWhile_upto_sep)
  with assms(3) have "a = b" by simp
  with assms(3) show ?thesis by simp
qed

lemma makeKey_eq_iff:
  assumes "CHR ''|'' \<notin> set p1" "CHR ''|'' \<notin> set m1" "CHR ''|'' \<notin> set p2" "CHR ''|'' \<notin> set m2"
  shows "makeKey p1 m1 s1 = makeKey p2 m2 s2 \<longleftrightarrow> p1 = p2 \<and> m1 = m2 \<and> s1 = s2"
proof
  assume "makeKey p1 m1 s1 = makeKey p2 m2 s2"
  then have e: "p1 @ CHR ''|'' # (m1 @ CHR ''|'' # s1) = p2 @ CHR ''|'' # (m2 @ CHR ''|'' # s2)"
    by (simp add: makeKey_def)
  from sep_split [OF assms(1) assms(3) e] have p: "p1 = p2" and r: "m1 @ CHR ''|'' # s1 = m2 @ CHR ''|'' # s2"
    by simp_all
  from sep_split [OF assms(2) assms(4) r] p show "p1 = p2 \<and> m1 = m2 \<and> s1 = s2" by simp
next
  assume "p1 = p2 \<and> m1 = m2 \<and> s1 = s2"
  then show "makeKey p1 m1 s1 = makeKey p2 m2 s2" by simp
qed

text \<open>
  Claim C8, amended. Two calls of \<open>makeKey\<close> with identical inputs give equal keys, for
  all inputs. \<open>makeKey\<close> joins its fields without looking at them, so it is injective only
  where the delimiter cannot move: on triples whose plant and material hold no pipe
  character, two keys are equal exactly when the triples are (the storage location may
  hold one), so that two different triples have different keys.
\<close>

theorem makeKey_injective_without_pipe:
  "(p1 = p2 \<and> m1 = m2 \<and> s1 = s2 \<longrightarrow> makeKey p1 m1 s1 = makeKey p2 m2 s2) \<and>
   (CHR ''|'' \<notin> set p1 \<and> CHR ''|'' \<notin> set m1 \<and> CHR ''|'' \<notin> set p2 \<and> CHR ''|'' \<notin> set m2 \<longrightarrow>
      (makeKey p1 m1 s1 = makeKey p2 m2 s2 \<longleftrightarrow> p1 = p2 \<and> m1 = m2 \<and> s1 = s2))"
proof (intro conjI impI)
  assume "p1 = p2 \<and> m1 = m2 \<and> s1 = s2"
  then show "makeKey p1 m1 s1 = makeKey p2 m2 s2" by simp
next
  assume "CHR ''|'' \<notin> set p1 \<and> CHR ''|'' \<notin> set m1 \<and> CHR ''|'' \<notin> set p2 \<and> CHR ''|'' \<notin> set m2"
  then show "makeKey p1 m1 s1 = makeKey p2 m2 s2 \<longleftrightarrow> p1 = p2 \<and> m1 = m2 \<and> s1 = s2"
    by (intro makeKey_eq_iff) simp_all
qed

text \<open>
  Claim C8, amended, on two different triples without a pipe character in plant and
  material: they differ only in where the plant ends and the material begins, both storage
  locations hold a pipe character, and the keys differ. And on one triple with a pipe
  character in the plant, given twice: the keys are equal.
\<close>

theorem makeKey_injective_without_pipe_witness:
  "CHR ''|'' \<notin> set ''10'' \<and> CHR ''|'' \<notin> set ''00123'' \<and>
   CHR ''|'' \<notin> set ''100'' \<and> CHR ''|'' \<notin> set ''0123'' \<and>
   (''10'', ''00123'', ''A|B'') \<noteq> (''100'', ''0123'', ''A|B'') \<and>
   makeKey ''10'' ''00123'' ''A|B'' \<noteq> makeKey ''100'' ''0123'' ''A|B'' \<and>
   makeKey ''1|2'' ''3'' ''4'' = makeKey ''1|2'' ''3'' ''4''"
proof -
  have h: "CHR ''|'' \<notin> set ''10'' \<and> CHR ''|'' \<notin> set ''00123'' \<and>
           CHR ''|'' \<notin> set ''100'' \<and> CHR ''|'' \<notin> set ''0123''"
    by simp
  have d: "\<not> (''10'' = ''100'' \<and> ''00123'' = ''0123'' \<and> ''A|B'' = ''A|B'')"
    by simp
  from makeKey_injective_without_pipe [of "''10''" "''100''" "''00123''" "''0123''" "''A|B''" "''A|B''"] h
  have "makeKey ''10'' ''00123'' ''A|B'' = makeKey ''100'' ''0123'' ''A|B'' \<longleftrightarrow>
          ''10'' = ''100'' \<and> ''00123'' = ''0123'' \<and> ''A|B'' = ''A|B''"
    by blast
  with d have ne: "makeKey ''10'' ''00123'' ''A|B'' \<noteq> makeKey ''100'' ''0123'' ''A|B''"
    by blast
  from makeKey_injective_without_pipe [of "''1|2''" "''1|2''" "''3''" "''3''" "''4''" "''4''"]
  have eq: "makeKey ''1|2'' ''3'' ''4'' = makeKey ''1|2'' ''3'' ''4''"
    by blast
  from h d ne eq show ?thesis by simp
qed

text \<open>
  Claim C8 as stated fails: two different triples with the same key, one with a pipe
  character in the plant, the other with one in the material.
\<close>

theorem makeKey_not_injective:
  "makeKey ''1|2'' ''3'' ''4'' = makeKey ''1'' ''2|3'' ''4'' \<and> ''1|2'' \<noteq> ''1''"
  by (simp add: makeKey_def)

section \<open>The expectation classifier\<close>

lemma or0_le0: "js_le x (Fin 0) \<Longrightarrow> js_le (or0 x) (Fin 0)"
  by (cases x) (auto simp: or0_def)

lemma or0_pos: "js_lt (Fin 0) x \<Longrightarrow> or0 x = x"
  by (cases x) (auto simp: or0_def)

lemma pos_not_le0: "js_lt (Fin 0) x \<Longrightarrow> \<not> js_le x (Fin 0)"
  by (cases x) auto

lemma or0_neg: "js_lt x (Fin 0) \<Longrightarrow> or0 x = x"
  by (cases x) (auto simp: or0_def)

text \<open>
  Claim C1. A row whose reported quantity is at most zero gets the tier "N/A" and the
  fixed rationale, whatever its other fields, the tolerance and the runtime are: no other
  rule has a part in the result.
\<close>

theorem expectation_na_without_stock:
  assumes "js_le (SAP_SOH_MB5B row) (Fin 0)"
  shows "expectationAndReason rt row tol =
           \<lparr>Expectation = ''N/A'', Summary = ''SAP shows 0 on-hand (no stock expected).''\<rparr>"
  using or0_le0 [OF assms] by (simp add: expectationAndReason_def)

text \<open>Claim C1 on a row with reported quantity zero.\<close>

theorem expectation_na_without_stock_witness:
  "js_le (SAP_SOH_MB5B (demo_row (Fin 0) (Fin 0))) (Fin 0) \<and>
   expectationAndReason demo_runtime (demo_row (Fin 0) (Fin 0)) (Fin 0) =
     \<lparr>Expectation = ''N/A'', Summary = ''SAP shows 0 on-hand (no stock expected).''\<rparr>"
  using expectation_na_without_stock [of "demo_row (Fin 0) (Fin 0)" demo_runtime "Fin 0"]
  by (simp add: demo_row_def)

lemma rule_delta_tier: "fst (rule_delta rt delta tol) \<in> {''HIGH'', ''MEDIUM'', ''LOW''}"
  by (simp add: rule_delta_def)

lemma rule_receipt_tier:
  "fst st \<in> {''HIGH'', ''MEDIUM'', ''LOW''} \<Longrightarrow> fst (rule_receipt d st) \<in> {''HIGH'', ''MEDIUM'', ''LOW''}"
  by (cases st) (auto simp: rule_receipt_def)

lemma rule_sale_tier: "fst (rule_sale d st) = fst st"
  by (cases st) (simp add: rule_sale_def)

lemma rule_loss_demotes:
  assumes "js_lt loss (Fin 0)"
  shows "fst (rule_loss rt loss (''HIGH'', rs)) = ''MEDIUM''"
    and "fst (rule_loss rt loss (''MEDIUM'', rs)) = ''LOW''"
    and "fst (rule_loss rt loss (''LOW'', rs)) = ''LOW''"
  using assms by (simp_all add: rule_loss_def)

lemma rule_loss_tier:
  assumes "js_lt loss (Fin 0)" "fst st \<in> {''HIGH'', ''MEDIUM'', ''LOW''}"
  shows "fst (rule_loss rt loss st) \<in> {''MEDIUM'', ''LOW''}"
  using assms by (cases st) (auto simp: rule_loss_def)

lemma rule_count_no_promotion: "tier_rank (fst (rule_count d st)) \<le> tier_rank (fst st)"
  by (cases st) (simp add: rule_count_def tier_rank_def tier_order_def)

lemma rule_count_tier:
  "fst st \<in> {''MEDIUM'', ''LOW''} \<Longrightarrow> fst (rule_count d st) = fst st"
  by (cases st) (auto simp: rule_count_def)

text \<open>
  Claim C10. With a reported quantity above zero and a loss sum below zero the final tier
  is never "HIGH": it is "MEDIUM" or "LOW". The loss rule takes "HIGH" to "MEDIUM" and
  "MEDIUM" to "LOW", and the count rule, the only one after it, never raises a tier.
\<close>

theorem loss_history_never_high:
  assumes "js_lt (Fin 0) (SAP_SOH_MB5B row)" and "js_lt (Loss702_Sum row) (Fin 0)"
  shows "Expectation (expectationAndReason rt row tol) \<noteq> ''HIGH'' \<and>
         Expectation (expectationAndReason rt row tol) \<in> {''MEDIUM'', ''LOW''} \<and>
         (\<forall>rs. fst (rule_loss rt (Loss702_Sum row) (''HIGH'', rs)) = ''MEDIUM'' \<and>
               fst (rule_loss rt (Loss702_Sum row) (''MEDIUM'', rs)) = ''LOW'') \<and>
         (\<forall>d st. tier_rank (fst (rule_count d st)) \<le> tier_rank (fst st))"
proof -
  let ?st = "rule_loss rt (Loss702_Sum row) (rule_sale (Days_Since_LastSale row)
               (rule_receipt (Days_Since_LastReceipt row)
                  (rule_delta rt (or0 (Delta_SAP_minus_Expected row)) tol)))"
  have "fst (rule_sale (Days_Since_LastSale row)
               (rule_receipt (Days_Since_LastReceipt row)
                  (rule_delta rt (or0 (Delta_SAP_minus_Expected row)) tol)))
          \<in> {''HIGH'', ''MEDIUM'', ''LOW''}"
    unfolding rule_sale_tier by (rule rule_receipt_tier) (rule rule_delta_tier)
  then have l: "fst ?st \<in> {''MEDIUM'', ''LOW''}"
    by (rule rule_loss_tier [OF assms(2)])
  then have c: "fst (rule_count (Days_Since_LastCount row) ?st) \<in> {''MEDIUM'', ''LOW''}"
    by (simp only: rule_count_tier)
  have e: "Expectation (expectationAndReason rt row tol) = fst (rule_count (Days_Since_LastCount row) ?st)"
    using or0_pos [OF assms(1)] pos_not_le0 [OF assms(1)] or0_neg [OF assms(2)]
    by (simp add: expectationAndReason_def split: prod.splits)
  from c e have m: "Expectation (expectationAndReason rt row tol) \<in> {''MEDIUM'', ''LOW''}" by simp
  then have "Expectation (expectationAndReason rt row tol) \<noteq> ''HIGH''" by auto
  with m show ?thesis
    using rule_loss_demotes [OF assms(2)] rule_count_no_promotion by blast
qed

text \<open>
  Claim C10 on a row whose delta is within tolerance and whose receipt and count are
  recent: only the loss rule moves the tier, from "HIGH" to "MEDIUM".
\<close>

theorem loss_history_never_high_witness:
  "js_lt (Fin 0) (SAP_SOH_MB5B (demo_row (Fin 12) (Fin (- 2)))) \<and>
   js_lt (Loss702_Sum (demo_row (Fin 12) (Fin (- 2)))) (Fin 0) \<and>
   Expectation (expectationAndReason demo_runtime (demo_row (Fin 12) (Fin (- 2))) (Fin 0)) = ''MEDIUM'' \<and>
   Expectation (expectationAndReason demo_runtime (demo_row (Fin 12) (Fin (- 2))) (Fin 0)) \<noteq> ''HIGH''"
  using loss_history_never_high [of "demo_row (Fin 12) (Fin (- 2))" demo_runtime "Fin 0"]
  by (simp add: demo_row_def expectationAndReason_def or0_def rule_delta_def rule_receipt_def
      rule_sale_def rule_loss_def rule_count_def)


section \<open>The schema check of the transaction cleaner\<close>

text \<open>
  Claim C9. On an empty row sequence the cleaner returns no empty record set: the header
  check finds no column name and fails with the error that lists all nine required columns.
\<close>

theorem cleanMb51_empty_rows:
  "cleanMb51 rt [] matPad slocPad =
     Inl (Error ''MB51 missing columns: Plant, Material, Material Description, Storage Location, Movement Type, Movement Type Text, Posting Date, Time of Entry, Qty in unit of entry'')"
  by (simp add: cleanMb51_def header_cols_def Object_keys_def MB51_REQUIRED_def)

lemma length_js_insert: "length (js_insert cmp x ys) = Suc (length ys)"
  by (induction ys) auto

lemma length_js_sort: "length (js_sort cmp xs) = length xs"
  by (induction xs) (auto simp: js_sort_def length_js_insert)

text \<open>
  Claim C4. The header is the column names of the first row, trimmed. When a required
  column is not among them, the cleaner fails with one error whose message lists the
  missing columns, all of them and only them, in the order of the required list, and it
  returns no record; when all nine are there, it fails with no such error and returns one
  cleaned record per row.
\<close>

theorem cleanMb51_schema_check:
  "(\<not> set MB51_REQUIRED \<subseteq> set (header_cols rows) \<longrightarrow>
      (\<exists>missing. cleanMb51 rt rows matPad slocPad =
                    Inl (Error (''MB51 missing columns: '' @ join '', '' missing)) \<and>
                  missing = filter (\<lambda>c. c \<notin> set (header_cols rows)) MB51_REQUIRED \<and>
                  set missing = set MB51_REQUIRED - set (header_cols rows))) \<and>
   (set MB51_REQUIRED \<subseteq> set (header_cols rows) \<longrightarrow>
      (\<exists>out. cleanMb51 rt rows matPad slocPad = Inr out \<and> length out = length rows))"
proof (intro conjI impI)
  assume a: "\<not> set MB51_REQUIRED \<subseteq> set (header_cols rows)"
  let ?missing = "filter (\<lambda>c. c \<notin> set (header_cols rows)) MB51_REQUIRED"
  from a have "?missing \<noteq> []" by (auto simp: filter_empty_conv)
  then have "cleanMb51 rt rows matPad slocPad =
               Inl (Error (''MB51 missing columns: '' @ join '', '' ?missing))"
    by (simp add: cleanMb51_def Let_def)
  moreover have "set ?missing = set MB51_REQUIRED - set (header_cols rows)" by auto
  ultimately show "\<exists>missing. cleanMb51 rt rows matPad slocPad =
                    Inl (Error (''MB51 missing columns: '' @ join '', '' missing)) \<and>
                  missing = filter (\<lambda>c. c \<notin> set (header_cols rows)) MB51_REQUIRED \<and>
                  set missing = set MB51_REQUIRED - set (header_cols rows)"
    by blast
next
  assume a: "set MB51_REQUIRED \<subseteq> set (header_cols rows)"
  then have "filter (\<lambda>c. c \<notin> set (header_cols rows)) MB51_REQUIRED = []"
    by (auto simp: filter_empty_conv)
  then show "\<exists>out. cleanMb51 rt rows matPad slocPad = Inr out \<and> length out = length rows"
    by (simp add: cleanMb51_def Let_def length_js_sort)
qed

text \<open>
  Claim C4 on a log without the column "Posting Date", and on a log with all nine columns,
  one of them named with a trailing space.
\<close>

theorem cleanMb51_schema_check_witness:
  "\<not> set MB51_REQUIRED \<subseteq> set (header_cols [filter (\<lambda>kv. fst kv \<noteq> ''Posting Date'') demo_mb51_row]) \<and>
   cleanMb51 demo_runtime [filter (\<lambda>kv. fst kv \<noteq> ''Posting Date'') demo_mb51_row] 6 4 =
     Inl (Error ''MB51 missing columns: Posting Date'') \<and>
   set MB51_REQUIRED \<subseteq> set (header_cols [demo_mb51_row]) \<and>
   (\<exists>out. cleanMb51 demo_runtime [demo_mb51_row] 6 4 = Inr out \<and> length out = 1)"
proof -
  have sp: "is_space c \<longleftrightarrow> c = CHR 0x09 \<or> c = CHR 0x0A \<or> c = CHR 0x0B \<or> c = CHR 0x0C \<or> c = CHR 0x0D
              \<or> c = CHR 0x20 \<or> c = CHR 0xA0" for c
    by (simp add: is_space_def)
  have h1: "header_cols [filter (\<lambda>kv. fst kv \<noteq> ''Posting Date'') demo_mb51_row] =
              [''Plant'', ''Material'', ''Material Description'', ''Storage Location'', ''Movement Type'',
               ''Movement Type Text'', ''Time of Entry'', ''Qty in unit of entry'']"
    by (simp add: header_cols_def Object_keys_def demo_mb51_row_def trim_def sp)
  have h2: "header_cols [demo_mb51_row] =
              [''Plant'', ''Material'', ''Material Description'', ''Storage Location'', ''Movement Type'',
               ''Movement Type Text'', ''Posting Date'', ''Time of Entry'', ''Qty in unit of entry'']"
    by (simp add: header_cols_def Object_keys_def demo_mb51_row_def trim_def sp)
  have n1: "\<not> set MB51_REQUIRED \<subseteq> set (header_cols [filter (\<lambda>kv. fst kv \<noteq> ''Posting Date'') demo_mb51_row])"
    unfolding h1 by (simp add: MB51_REQUIRED_def)
  have n2: "set MB51_REQUIRED \<subseteq> set (header_cols [demo_mb51_row])"
    unfolding h2 by (simp add: MB51_REQUIRED_def)
  have m: "filter (\<lambda>c. c \<notin> set (header_cols [filter (\<lambda>kv. fst kv \<noteq> ''Posting Date'') demo_mb51_row])) MB51_REQUIRED
             = [''Posting Date'']"
    unfolding h1 by (simp add: MB51_REQUIRED_def)
  show ?thesis
    using cleanMb51_schema_check [of "[filter (\<lambda>kv. fst kv \<noteq> ''Posting Date'') demo_mb51_row]" demo_runtime 6 4]
      cleanMb51_schema_check [of "[demo_mb51_row]" demo_runtime 6 4] n1 n2
    by (simp add: m)
qed

section \<open>The final sort\<close>

lemma or0_not_NaN: "or0 x \<noteq> NaN"
  by (cases x) (auto simp: or0_def)

lemma sub_pos_iff:
  "x \<noteq> NaN \<Longrightarrow> y \<noteq> NaN \<Longrightarrow> js_lt (Fin 0) (js_sub x y) \<longleftrightarrow> num_level y < num_level x"
  by (cases x; cases y) auto

lemma le_iff_level:
  "x \<noteq> NaN \<Longrightarrow> y \<noteq> NaN \<Longrightarrow> js_le x y \<longleftrightarrow> num_level x \<le> num_level y"
  by (cases x; cases y) auto

lemma rowCompare_pos_iff: "js_lt (Fin 0) (rowCompare a b) \<longleftrightarrow> row_key b < row_key a"
proof -
  let ?x = "or0 (SAP_SOH_MB5B a)" and ?y = "or0 (SAP_SOH_MB5B b)"
  have "js_lt (Fin 0) (js_sub ?y ?x) \<longleftrightarrow> num_level ?x < num_level ?y"
    by (rule sub_pos_iff) (rule or0_not_NaN)+
  also have "\<dots> \<longleftrightarrow> (- fst (num_level ?y), - snd (num_level ?y)) < (- fst (num_level ?x), - snd (num_level ?x))"
    by (cases "num_level ?x"; cases "num_level ?y") auto
  finally show ?thesis
    by (auto simp: rowCompare_def row_key_def Let_def)
qed

lemma tie_iff: "spec_tie a b \<longleftrightarrow> row_key a = row_key b"
  unfolding spec_tie_def rowCompare_pos_iff by auto

lemma js_insert_rowCompare: "js_insert rowCompare x ys = insort_key row_key x ys"
  by (induction ys) (auto simp: rowCompare_pos_iff)

lemma sortRows_sort_key: "sortRows rows = sort_key row_key rows"
  by (induction rows) (simp_all add: sortRows_def js_sort_def js_insert_rowCompare)

lemma row_key_le_in_order: "row_key a \<le> row_key b \<Longrightarrow> spec_in_order a b"
proof -
  let ?x = "or0 (SAP_SOH_MB5B a)" and ?y = "or0 (SAP_SOH_MB5B b)"
  have le: "js_le ?y ?x \<longleftrightarrow> num_level ?y \<le> num_level ?x"
    by (rule le_iff_level) (rule or0_not_NaN)+
  assume "row_key a \<le> row_key b"
  then show ?thesis
    unfolding spec_in_order_def le row_key_def
    by (cases "num_level ?x"; cases "num_level ?y") (auto split: if_splits)
qed

text \<open>
  Claim C2. The final sort permutes the rows; in its result, of any two rows the earlier
  and the later are in the order of the specification (rows with stock before rows
  without, then ascending tier rank, then descending reported quantity); and the sort is
  stable: the rows that tie with any given row keep their input order.
\<close>

theorem sortRows_order:
  "mset (sortRows rows) = mset rows \<and>
   sorted_wrt spec_in_order (sortRows rows) \<and>
   (\<forall>a. filter (spec_tie a) (sortRows rows) = filter (spec_tie a) rows)"
proof (intro conjI allI)
  show "mset (sortRows rows) = mset rows"
    by (simp add: sortRows_sort_key)
  have "sorted (map row_key (sortRows rows))"
    by (simp add: sortRows_sort_key)
  then have "sorted_wrt (\<lambda>a b. row_key a \<le> row_key b) (sortRows rows)"
    by (simp add: sorted_map)
  then show "sorted_wrt spec_in_order (sortRows rows)"
    by (rule sorted_wrt_mono_rel [rotated]) (rule row_key_le_in_order)
  fix a
  have "spec_tie a = (\<lambda>r. row_key r = row_key a)"
    by (auto simp: tie_iff fun_eq_iff)
  then show "filter (spec_tie a) (sortRows rows) = filter (spec_tie a) rows"
    by (simp add: sortRows_sort_key sort_key_stable)
qed

text \<open>
  Claim C2 on a result set of the tiers "LOW", "MEDIUM", "HIGH" and "N/A" with reported
  quantities above and not above zero; the rows of the materials B and E tie.
\<close>

theorem sortRows_order_witness:
  "sortRows [demo_reconciled ''A'' (Fin 0) ''N/A'', demo_reconciled ''B'' (Fin 5) ''HIGH'',
             demo_reconciled ''C'' (Fin 3) ''LOW'', demo_reconciled ''D'' (Fin 9) ''LOW'',
             demo_reconciled ''E'' (Fin 5) ''HIGH'', demo_reconciled ''F'' (Fin 2) ''MEDIUM'',
             demo_reconciled ''G'' (Fin (- 1)) ''N/A''] =
     [demo_reconciled ''D'' (Fin 9) ''LOW'', demo_reconciled ''C'' (Fin 3) ''LOW'',
      demo_reconciled ''F'' (Fin 2) ''MEDIUM'', demo_reconciled ''B'' (Fin 5) ''HIGH'',
      demo_reconciled ''E'' (Fin 5) ''HIGH'', demo_reconciled ''A'' (Fin 0) ''N/A'',
      demo_reconciled ''G'' (Fin (- 1)) ''N/A''] \<and>
   sorted_wrt spec_in_order
     [demo_reconciled ''D'' (Fin 9) ''LOW'', demo_reconciled ''C'' (Fin 3) ''LOW'',
      demo_reconciled ''F'' (Fin 2) ''MEDIUM'', demo_reconciled ''B'' (Fin 5) ''HIGH'',
      demo_reconciled ''E'' (Fin 5) ''HIGH'', demo_reconciled ''A'' (Fin 0) ''N/A'',
      demo_reconciled ''G'' (Fin (- 1)) ''N/A''] \<and>
   filter (spec_tie (demo_reconciled ''E'' (Fin 5) ''HIGH''))
     [demo_reconciled ''D'' (Fin 9) ''LOW'', demo_reconciled ''C'' (Fin 3) ''LOW'',
      demo_reconciled ''F'' (Fin 2) ''MEDIUM'', demo_reconciled ''B'' (Fin 5) ''HIGH'',
      demo_reconciled ''E'' (Fin 5) ''HIGH'', demo_reconciled ''A'' (Fin 0) ''N/A'',
      demo_reconciled ''G'' (Fin (- 1)) ''N/A''] =
     [demo_reconciled ''B'' (Fin 5) ''HIGH'', demo_reconciled ''E'' (Fin 5) ''HIGH'']"
proof -
  let ?rows = "[demo_reconciled ''A'' (Fin 0) ''N/A'', demo_reconciled ''B'' (Fin 5) ''HIGH'',
             demo_reconciled ''C'' (Fin 3) ''LOW'', demo_reconciled ''D'' (Fin 9) ''LOW'',
             demo_reconciled ''E'' (Fin 5) ''HIGH'', demo_reconciled ''F'' (Fin 2) ''MEDIUM'',
             demo_reconciled ''G'' (Fin (- 1)) ''N/A'']"
  let ?sorted = "[demo_reconciled ''D'' (Fin 9) ''LOW'', demo_reconciled ''C'' (Fin 3) ''LOW'',
      demo_reconciled ''F'' (Fin 2) ''MEDIUM'', demo_reconciled ''B'' (Fin 5) ''HIGH'',
      demo_reconciled ''E'' (Fin 5) ''HIGH'', demo_reconciled ''A'' (Fin 0) ''N/A'',
      demo_reconciled ''G'' (Fin (- 1)) ''N/A'']"
  have e: "sortRows ?rows = ?sorted"
    by code_simp
  have f: "filter (spec_tie (demo_reconciled ''E'' (Fin 5) ''HIGH'')) ?rows =
             [demo_reconciled ''B'' (Fin 5) ''HIGH'', demo_reconciled ''E'' (Fin 5) ''HIGH'']"
    by code_simp
  from sortRows_order [of ?rows]
  have "sorted_wrt spec_in_order (sortRows ?rows)"
    and "filter (spec_tie (demo_reconciled ''E'' (Fin 5) ''HIGH'')) (sortRows ?rows) =
         filter (spec_tie (demo_reconciled ''E'' (Fin 5) ''HIGH'')) ?rows"
    by blast+
  then show ?thesis unfolding e f using e by blast
qed

section \<open>Last events\<close>

lemma fin_lt_le_trans:
  "isFinite a \<Longrightarrow> isFinite b \<Longrightarrow> isFinite c \<Longrightarrow> js_lt a b \<Longrightarrow> js_le b c \<Longrightarrow> js_lt a c"
  by (cases a; cases b; cases c) auto

lemma fin_le_lt_trans:
  "isFinite a \<Longrightarrow> isFinite b \<Longrightarrow> isFinite c \<Longrightarrow> js_le a b \<Longrightarrow> js_lt b c \<Longrightarrow> js_lt a c"
  by (cases a; cases b; cases c) auto

lemma fin_not_lt: "isFinite a \<Longrightarrow> isFinite b \<Longrightarrow> \<not> js_lt a b \<Longrightarrow> js_le b a"
  by (cases a; cases b) auto

lemma fin_lt_le: "js_lt a b \<Longrightarrow> js_le a b"
  by (cases a; cases b) auto

lemma fin_le_refl: "isFinite a \<Longrightarrow> js_le a a"
  by (cases a) auto

lemma first_latest_single: "spec_first_latest [c] c"
  unfolding spec_first_latest_def by (intro exI [of _ "[]"]) simp

lemma first_latest_replace:
  assumes fin: "isFinite (event_time c)" "\<forall>x \<in> set (r # cs). isFinite (event_time x)"
    and lt: "js_lt (event_time c) (event_time r)"
    and fl: "spec_first_latest (r # cs) w"
  shows "spec_first_latest (c # r # cs) w"
proof -
  from fl obtain pre post where d: "r # cs = pre @ w # post"
    and p: "\<forall>x \<in> set pre. js_lt (event_time x) (event_time w)"
    and q: "\<forall>x \<in> set post. js_le (event_time x) (event_time w)"
    unfolding spec_first_latest_def by blast
  from d have w_in: "w \<in> set (r # cs)" by (metis in_set_conv_decomp)
  then have fw: "isFinite (event_time w)" using fin(2) by blast
  have fr: "isFinite (event_time r)" using fin(2) by simp
  have rw: "js_le (event_time r) (event_time w)"
  proof (cases pre)
    case Nil
    with d have "r = w" by simp
    then show ?thesis using fr by (simp add: fin_le_refl)
  next
    case (Cons a as)
    with d have "a = r" by simp
    with Cons p show ?thesis by (simp add: fin_lt_le)
  qed
  have "js_lt (event_time c) (event_time w)"
    by (rule fin_lt_le_trans [OF fin(1) fr fw lt rw])
  with p have "\<forall>x \<in> set (c # pre). js_lt (event_time x) (event_time w)" by simp
  moreover from d have "c # r # cs = (c # pre) @ w # post" by simp
  ultimately show ?thesis unfolding spec_first_latest_def using q by blast
qed

lemma first_latest_keep:
  assumes fin: "isFinite (event_time c)" "isFinite (event_time r)"
      "\<forall>x \<in> set cs. isFinite (event_time x)"
    and nlt: "\<not> js_lt (event_time c) (event_time r)"
    and fl: "spec_first_latest (c # cs) w"
  shows "spec_first_latest (c # r # cs) w"
proof -
  from fl obtain pre post where d: "c # cs = pre @ w # post"
    and p: "\<forall>x \<in> set pre. js_lt (event_time x) (event_time w)"
    and q: "\<forall>x \<in> set post. js_le (event_time x) (event_time w)"
    unfolding spec_first_latest_def by blast
  have rc: "js_le (event_time r) (event_time c)" by (rule fin_not_lt [OF fin(1,2) nlt])
  show ?thesis
  proof (cases pre)
    case Nil
    with d have w: "w = c" and post: "post = cs" by simp_all
    have "c # r # cs = [] @ c # (r # cs)" by simp
    moreover have "\<forall>x \<in> set (r # cs). js_le (event_time x) (event_time c)"
      using rc q w post by simp
    ultimately show ?thesis unfolding spec_first_latest_def w by (intro exI [of _ "[]"] exI [of _ "r # cs"]) simp
  next
    case (Cons a as)
    with d have a: "a = c" and cs: "cs = as @ w # post" by simp_all
    from cs have "w \<in> set cs" by simp
    then have fw: "isFinite (event_time w)" using fin(3) by blast
    from p Cons a have cw: "js_lt (event_time c) (event_time w)" by simp
    have rw: "js_lt (event_time r) (event_time w)"
      by (rule fin_le_lt_trans [OF fin(2) fin(1) fw rc cw])
    have "c # r # cs = (c # r # as) @ w # post" using cs by simp
    moreover have "\<forall>x \<in> set (c # r # as). js_lt (event_time x) (event_time w)"
      using p Cons a rw by simp
    ultimately show ?thesis unfolding spec_first_latest_def using q by blast
  qed
qed

lemma scan_no_candidates:
  "event_candidates mvts k rs = [] \<Longrightarrow> lastEvent_scan mvts rs m k = m k"
proof (induction rs arbitrary: m)
  case Nil
  show ?case by simp
next
  case (Cons r rs)
  from Cons.prems have nc: "\<not> (Key r = k \<and> Movement_Type r \<in> set mvts \<and> Post_DateTime r \<noteq> None)"
    and rest: "event_candidates mvts k rs = []"
    by (auto simp: event_candidates_def split: if_splits)
  have ih: "lastEvent_scan mvts rs m' k = m' k" for m' by (rule Cons.IH [OF rest])
  from nc show ?case
    by (auto simp: ih split: option.splits)
qed

lemma scan_with_current:
  assumes "m k = Some c" "Key c = k" "Post_DateTime c \<noteq> None" "isFinite (event_time c)"
    and "\<forall>x \<in> set (event_candidates mvts k rs). isFinite (event_time x)"
  shows "\<exists>w. lastEvent_scan mvts rs m k = Some w \<and> spec_first_latest (c # event_candidates mvts k rs) w"
  using assms
proof (induction rs arbitrary: m c)
  case Nil
  then show ?case by (simp add: event_candidates_def first_latest_single)
next
  case (Cons r rs)
  let ?cs = "event_candidates mvts k rs"
  show ?case
  proof (cases "Key r = k \<and> Movement_Type r \<in> set mvts \<and> Post_DateTime r \<noteq> None")
    case False
    then have e: "event_candidates mvts k (r # rs) = ?cs" by (simp add: event_candidates_def)
    have "\<exists>m'. lastEvent_scan mvts (r # rs) m = lastEvent_scan mvts rs m' \<and> m' k = Some c"
    proof (cases "Movement_Type r \<in> set mvts \<and> Post_DateTime r \<noteq> None")
      case False
      then have "lastEvent_scan mvts (r # rs) m = lastEvent_scan mvts rs m" by auto
      with Cons.prems(1) show ?thesis by blast
    next
      case True
      with \<open>\<not> (Key r = k \<and> Movement_Type r \<in> set mvts \<and> Post_DateTime r \<noteq> None)\<close>
      have kk: "Key r \<noteq> k" by blast
      have "lastEvent_scan mvts (r # rs) m = lastEvent_scan mvts rs m \<or>
            lastEvent_scan mvts (r # rs) m = lastEvent_scan mvts rs (m(Key r \<mapsto> r))"
        by (auto split: option.splits)
      with kk Cons.prems(1) show ?thesis
        by (metis fun_upd_other)
    qed
    then obtain m' where s: "lastEvent_scan mvts (r # rs) m = lastEvent_scan mvts rs m'"
      and mk: "m' k = Some c" by blast
    from Cons.IH [of m' c, OF mk Cons.prems(2,3,4)] Cons.prems(5) e show ?thesis
      unfolding s e by simp
  next
    case True
    then have e: "event_candidates mvts k (r # rs) = r # ?cs" by (simp add: event_candidates_def)
    from True obtain t where t: "Post_DateTime r = Some t" by auto
    from Cons.prems(3) obtain tc where tc: "Post_DateTime c = Some tc" by auto
    from Cons.prems(5) e have fr: "isFinite (event_time r)"
      and fcs: "\<forall>x \<in> set ?cs. isFinite (event_time x)" by simp_all
    have et: "event_time r = t" "event_time c = tc"
      by (simp_all add: event_time_def time_or0_def t tc)
    show ?thesis
    proof (cases "js_lt tc t")
      case lt: True
      have s: "lastEvent_scan mvts (r # rs) m = lastEvent_scan mvts rs (m(k \<mapsto> r))"
        using True t tc Cons.prems(1) lt by simp
      have "\<exists>w. lastEvent_scan mvts rs (m(k \<mapsto> r)) k = Some w \<and> spec_first_latest (r # ?cs) w"
        by (rule Cons.IH [of "m(k \<mapsto> r)" r]) (use True fr fcs in simp_all)
      then obtain w where w: "lastEvent_scan mvts rs (m(k \<mapsto> r)) k = Some w"
        and fl: "spec_first_latest (r # ?cs) w" by blast
      have "spec_first_latest (c # r # ?cs) w"
        by (rule first_latest_replace [OF Cons.prems(4) _ _ fl]) (use fr fcs lt et in simp_all)
      with w show ?thesis unfolding s e by blast
    next
      case nlt: False
      have s: "lastEvent_scan mvts (r # rs) m = lastEvent_scan mvts rs m"
        using True t tc Cons.prems(1) nlt by simp
      have "\<exists>w. lastEvent_scan mvts rs m k = Some w \<and> spec_first_latest (c # ?cs) w"
        by (rule Cons.IH [of m c, OF Cons.prems(1,2,3,4) fcs])
      then obtain w where w: "lastEvent_scan mvts rs m k = Some w"
        and fl: "spec_first_latest (c # ?cs) w" by blast
      have "spec_first_latest (c # r # ?cs) w"
        by (rule first_latest_keep [OF Cons.prems(4) fr fcs _ fl]) (use nlt et in simp)
      with w show ?thesis unfolding s e by blast
    qed
  qed
qed

lemma scan_from_empty:
  assumes "m k = None"
    and "\<forall>x \<in> set (event_candidates mvts k rs). isFinite (event_time x)"
    and "event_candidates mvts k rs \<noteq> []"
  shows "\<exists>w. lastEvent_scan mvts rs m k = Some w \<and> spec_first_latest (event_candidates mvts k rs) w"
  using assms
proof (induction rs arbitrary: m)
  case Nil
  then show ?case by (simp add: event_candidates_def)
next
  case (Cons r rs)
  let ?cs = "event_candidates mvts k rs"
  show ?case
  proof (cases "Key r = k \<and> Movement_Type r \<in> set mvts \<and> Post_DateTime r \<noteq> None")
    case False
    then have e: "event_candidates mvts k (r # rs) = ?cs" by (simp add: event_candidates_def)
    have "\<exists>m'. lastEvent_scan mvts (r # rs) m = lastEvent_scan mvts rs m' \<and> m' k = None"
    proof (cases "Movement_Type r \<in> set mvts \<and> Post_DateTime r \<noteq> None")
      case False
      then have "lastEvent_scan mvts (r # rs) m = lastEvent_scan mvts rs m" by auto
      with Cons.prems(1) show ?thesis by blast
    next
      case True
      with \<open>\<not> (Key r = k \<and> Movement_Type r \<in> set mvts \<and> Post_DateTime r \<noteq> None)\<close>
      have kk: "Key r \<noteq> k" by blast
      have "lastEvent_scan mvts (r # rs) m = lastEvent_scan mvts rs m \<or>
            lastEvent_scan mvts (r # rs) m = lastEvent_scan mvts rs (m(Key r \<mapsto> r))"
        by (auto split: option.splits)
      with kk Cons.prems(1) show ?thesis
        by (metis fun_upd_other)
    qed
    then obtain m' where s: "lastEvent_scan mvts (r # rs) m = lastEvent_scan mvts rs m'"
      and mk: "m' k = None" by blast
    from Cons.IH [of m', OF mk] Cons.prems(2,3) e show ?thesis
      unfolding s e by simp
  next
    case True
    then have e: "event_candidates mvts k (r # rs) = r # ?cs" by (simp add: event_candidates_def)
    from True obtain t where t: "Post_DateTime r = Some t" by auto
    from Cons.prems(2) e have fr: "isFinite (event_time r)"
      and fcs: "\<forall>x \<in> set ?cs. isFinite (event_time x)" by simp_all
    have s: "lastEvent_scan mvts (r # rs) m = lastEvent_scan mvts rs (m(k \<mapsto> r))"
      using True t Cons.prems(1) by simp
    have "\<exists>w. lastEvent_scan mvts rs (m(k \<mapsto> r)) k = Some w \<and> spec_first_latest (r # ?cs) w"
      by (rule scan_with_current [of "m(k \<mapsto> r)" k r]) (use True fr fcs in simp_all)
    then show ?thesis unfolding s e .
  qed
qed

text \<open>
  Claim C3, amended. For every log, category and key: a key without a candidate is absent
  from the result; and when the dates of the key's candidates are all valid, the result
  holds the label's four fields (time, quantity, movement type, description) of the first
  of the candidates with the greatest time.
\<close>

theorem lastEvent_selects_first_latest:
  "(event_candidates mvts k mb51 = [] \<longrightarrow> lastEvent mb51 mvts label k = None) \<and>
   (event_candidates mvts k mb51 \<noteq> [] \<and>
    (\<forall>x \<in> set (event_candidates mvts k mb51). isFinite (event_time x)) \<longrightarrow>
      (\<exists>r. spec_first_latest (event_candidates mvts k mb51) r \<and>
           lastEvent mb51 mvts label k = Some (event_fields label r)))"
proof (intro conjI impI)
  assume "event_candidates mvts k mb51 = []"
  then show "lastEvent mb51 mvts label k = None"
    by (simp add: lastEvent_def scan_no_candidates)
next
  assume a: "event_candidates mvts k mb51 \<noteq> [] \<and>
    (\<forall>x \<in> set (event_candidates mvts k mb51). isFinite (event_time x))"
  have "\<exists>w. lastEvent_scan mvts mb51 Map.empty k = Some w \<and> spec_first_latest (event_candidates mvts k mb51) w"
    by (rule scan_from_empty [of Map.empty]) (use a in simp_all)
  then show "\<exists>r. spec_first_latest (event_candidates mvts k mb51) r \<and>
           lastEvent mb51 mvts label k = Some (event_fields label r)"
    by (auto simp: lastEvent_def)
qed

text \<open>
  Claim C3, amended, on a log of three receipts of one key, the later two at the same
  time: the first of those two is recorded, with its quantity of 20.
\<close>

theorem lastEvent_selects_first_latest_witness:
  "event_candidates RECEIPT_MVTS ''1000|123|0001''
     [demo_movement (Fin 0) (JStr ''08:00'') (Fin 28800000) (Fin 10),
      demo_movement (Fin 86400000) (JStr ''12:30'') (Fin 131400000) (Fin 20),
      demo_movement (Fin 86400000) (JStr ''12:30'') (Fin 131400000) (Fin 30)] \<noteq> [] \<and>
   list_all (\<lambda>x. isFinite (event_time x))
     (event_candidates RECEIPT_MVTS ''1000|123|0001''
        [demo_movement (Fin 0) (JStr ''08:00'') (Fin 28800000) (Fin 10),
         demo_movement (Fin 86400000) (JStr ''12:30'') (Fin 131400000) (Fin 20),
         demo_movement (Fin 86400000) (JStr ''12:30'') (Fin 131400000) (Fin 30)]) \<and>
   (\<exists>r. spec_first_latest
          (event_candidates RECEIPT_MVTS ''1000|123|0001''
             [demo_movement (Fin 0) (JStr ''08:00'') (Fin 28800000) (Fin 10),
              demo_movement (Fin 86400000) (JStr ''12:30'') (Fin 131400000) (Fin 20),
              demo_movement (Fin 86400000) (JStr ''12:30'') (Fin 131400000) (Fin 30)]) r \<and>
        lastEvent
          [demo_movement (Fin 0) (JStr ''08:00'') (Fin 28800000) (Fin 10),
           demo_movement (Fin 86400000) (JStr ''12:30'') (Fin 131400000) (Fin 20),
           demo_movement (Fin 86400000) (JStr ''12:30'') (Fin 131400000) (Fin 30)]
          RECEIPT_MVTS ''LastReceipt'' ''1000|123|0001'' = Some (event_fields ''LastReceipt'' r)) \<and>
   lastEvent
     [demo_movement (Fin 0) (JStr ''08:00'') (Fin 28800000) (Fin 10),
      demo_movement (Fin 86400000) (JStr ''12:30'') (Fin 131400000) (Fin 20),
      demo_movement (Fin 86400000) (JStr ''12:30'') (Fin 131400000) (Fin 30)]
     RECEIPT_MVTS ''LastReceipt'' ''1000|123|0001'' =
     Some [(''LastReceipt_DT'', JDate (Fin 131400000)), (''LastReceipt_Qty'', JNum (Fin 20)),
           (''LastReceipt_MvT'', JStr ''101''), (''LastReceipt_Txt'', JStr ''GR goods receipt'')]"
proof -
  let ?log = "[demo_movement (Fin 0) (JStr ''08:00'') (Fin 28800000) (Fin 10),
      demo_movement (Fin 86400000) (JStr ''12:30'') (Fin 131400000) (Fin 20),
      demo_movement (Fin 86400000) (JStr ''12:30'') (Fin 131400000) (Fin 30)]"
  have c: "event_candidates RECEIPT_MVTS ''1000|123|0001'' ?log = ?log"
    by code_simp
  have ne: "event_candidates RECEIPT_MVTS ''1000|123|0001'' ?log \<noteq> []"
    unfolding c by simp
  have fin: "list_all (\<lambda>x. isFinite (event_time x)) (event_candidates RECEIPT_MVTS ''1000|123|0001'' ?log)"
    unfolding c by code_simp
  have e: "lastEvent ?log RECEIPT_MVTS ''LastReceipt'' ''1000|123|0001'' =
     Some [(''LastReceipt_DT'', JDate (Fin 131400000)), (''LastReceipt_Qty'', JNum (Fin 20)),
           (''LastReceipt_MvT'', JStr ''101''), (''LastReceipt_Txt'', JStr ''GR goods receipt'')]"
    by code_simp
  from fin have "\<forall>x \<in> set (event_candidates RECEIPT_MVTS ''1000|123|0001'' ?log). isFinite (event_time x)"
    by (simp add: list_all_iff)
  with ne lastEvent_selects_first_latest [of RECEIPT_MVTS "''1000|123|0001''" ?log "''LastReceipt''"]
  have "\<exists>r. spec_first_latest (event_candidates RECEIPT_MVTS ''1000|123|0001'' ?log) r \<and>
        lastEvent ?log RECEIPT_MVTS ''LastReceipt'' ''1000|123|0001'' = Some (event_fields ''LastReceipt'' r)"
    by blast
  with ne fin e show ?thesis by blast
qed

text \<open>
  Claim C3 as stated fails on a cleaned log. A time-of-entry cell that holds a large number
  makes the first record's date invalid; the scan stores that record for the key and never
  replaces it, because no comparison with its time holds. The second record, a candidate
  with a valid date, is passed over: the recorded time is not the greatest.
\<close>

theorem lastEvent_invalid_date_kept:
  "cleanMb51 demo_runtime
     [mb51_row (JDate (Fin 0)) (JNum (Fin 1000000000000)),
      mb51_row (JDate (Fin 86400000)) (JStr ''12:30:00'')] 0 4 =
     Inr [demo_movement (Fin 0) (JNum (Fin 1000000000000)) NaN (Fin 10),
          demo_movement (Fin 86400000) (JStr ''12:30:00'') (Fin 131400000) (Fin 10)] \<and>
   event_candidates RECEIPT_MVTS ''1000|123|0001''
     [demo_movement (Fin 0) (JNum (Fin 1000000000000)) NaN (Fin 10),
      demo_movement (Fin 86400000) (JStr ''12:30:00'') (Fin 131400000) (Fin 10)] =
     [demo_movement (Fin 0) (JNum (Fin 1000000000000)) NaN (Fin 10),
      demo_movement (Fin 86400000) (JStr ''12:30:00'') (Fin 131400000) (Fin 10)] \<and>
   lastEvent
     [demo_movement (Fin 0) (JNum (Fin 1000000000000)) NaN (Fin 10),
      demo_movement (Fin 86400000) (JStr ''12:30:00'') (Fin 131400000) (Fin 10)]
     RECEIPT_MVTS ''LastReceipt'' ''1000|123|0001'' =
     Some (event_fields ''LastReceipt'' (demo_movement (Fin 0) (JNum (Fin 1000000000000)) NaN (Fin 10))) \<and>
   event_time (demo_movement (Fin 0) (JNum (Fin 1000000000000)) NaN (Fin 10)) = NaN \<and>
   event_time (demo_movement (Fin 86400000) (JStr ''12:30:00'') (Fin 131400000) (Fin 10)) = Fin 131400000 \<and>
   \<not> js_le (event_time (demo_movement (Fin 86400000) (JStr ''12:30:00'') (Fin 131400000) (Fin 10)))
            (event_time (demo_movement (Fin 0) (JNum (Fin 1000000000000)) NaN (Fin 10))) \<and>
   \<not> spec_first_latest
       [demo_movement (Fin 0) (JNum (Fin 1000000000000)) NaN (Fin 10),
        demo_movement (Fin 86400000) (JStr ''12:30:00'') (Fin 131400000) (Fin 10)]
       (demo_movement (Fin 0) (JNum (Fin 1000000000000)) NaN (Fin 10))"
proof -
  let ?bad = "demo_movement (Fin 0) (JNum (Fin 1000000000000)) NaN (Fin 10)"
  let ?good = "demo_movement (Fin 86400000) (JStr ''12:30:00'') (Fin 131400000) (Fin 10)"
  have run: "cleanMb51 demo_runtime
     [mb51_row (JDate (Fin 0)) (JNum (Fin 1000000000000)),
      mb51_row (JDate (Fin 86400000)) (JStr ''12:30:00'')] 0 4 = Inr [?bad, ?good] \<and>
   event_candidates RECEIPT_MVTS ''1000|123|0001'' [?bad, ?good] = [?bad, ?good] \<and>
   lastEvent [?bad, ?good] RECEIPT_MVTS ''LastReceipt'' ''1000|123|0001'' =
     Some (event_fields ''LastReceipt'' ?bad) \<and>
   event_time ?bad = NaN \<and> event_time ?good = Fin 131400000 \<and>
   \<not> js_le (event_time ?good) (event_time ?bad)"
    by code_simp
  have ne: "?bad \<noteq> ?good"
    by (simp add: demo_movement_def)
  have "\<not> spec_first_latest [?bad, ?good] ?bad"
  proof
    assume "spec_first_latest [?bad, ?good] ?bad"
    then obtain pre post where d: "[?bad, ?good] = pre @ ?bad # post"
      and q: "\<forall>x \<in> set post. js_le (event_time x) (event_time ?bad)"
      unfolding spec_first_latest_def by blast
    from d ne have "pre = [] \<and> post = [?good]"
      by (cases pre; cases "tl pre") auto
    with q have "js_le (event_time ?good) (event_time ?bad)" by simp
    with run show False by blast
  qed
  with run show ?thesis by blast
qed

section \<open>The snapshot block parser\<close>

lemma collectSlocs_fold:
  "collectSlocs rt slocPad rows acc =
     fold (\<lambda>v s. set_add s v)
       (map (\<lambda>row. normSloc rt (cell row 1) slocPad)
          (filter (has_location rt) (takeWhile (\<lambda>row. \<not> is_plant_row rt row) rows))) acc"
  by (induction rows arbitrary: acc) (simp_all add: Let_def is_plant_row_def has_location_def)

lemma findSlocs_spec:
  "findSlocs rt slocPad block = fold (\<lambda>v s. set_add s v) (spec_sloc_values rt 1 slocPad block) []"
  by (induction block)
     (simp_all add: spec_sloc_values_def Let_def is_header_row_def collectSlocs_fold)

lemma set_fold_set_add: "set (fold (\<lambda>v s. set_add s v) xs acc) = set acc \<union> set xs"
  by (induction xs arbitrary: acc) (auto simp: set_add_def)

lemma distinct_fold_set_add: "distinct acc \<Longrightarrow> distinct (fold (\<lambda>v s. set_add s v) xs acc)"
  by (induction xs arbitrary: acc) (auto simp: set_add_def)

lemma normSloc_empty: "normSloc rt (JStr []) w = []"
  by (simp add: normSloc_def normIntish_def trim_def rx_test_int_dot0 rx_test_digits)

lemma block_sloc_spec:
  fixes vals :: "string list"
  defines "slocs \<equiv> fold (\<lambda>v s. set_add s v) vals []"
  assumes norm: "\<forall>v \<in> set vals. normSloc rt (JStr v) w = v"
  shows "(let sloc = (if length slocs = 1 then slocs ! 0 else if 1 < length slocs then ''MULTI'' else [])
          in if sloc = ''MULTI'' then ''MULTI'' else normSloc rt (JStr sloc) w) =
         (case remdups vals of [] \<Rightarrow> [] | [v] \<Rightarrow> v | _ # _ # _ \<Rightarrow> ''MULTI'')"
proof -
  have d: "distinct slocs" and s: "set slocs = set vals"
    by (simp_all add: slocs_def distinct_fold_set_add set_fold_set_add)
  have len: "length slocs = length (remdups vals)"
    using d s by (metis distinct_card length_remdups_card_conv)
  show ?thesis
  proof (cases "remdups vals")
    case Nil
    with len show ?thesis by (simp add: normSloc_empty)
  next
    case (Cons v vs)
    show ?thesis
    proof (cases vs)
      case Nil
      with Cons have r: "remdups vals = [v]" by simp
      then have sv: "set vals = {v}" by (metis set_remdups list.simps(15) empty_set)
      from r len obtain x where x: "slocs = [x]" by (cases slocs) auto
      with s sv have "x = v" by auto
      with x r norm sv show ?thesis by simp
    next
      case (Cons u us)
      with \<open>remdups vals = v # vs\<close> len show ?thesis by simp
    qed
  qed
qed

text \<open>
  Claim C5, amended. The storage location of a block's record is the one the
  specification describes when the scan below the header row starts at the second row
  below it: the row directly below the header row is passed over.
\<close>

theorem block_storage_location:
  assumes "parseBlock rt matPad slocPad block = Some b"
  shows "Storage_Location b = spec_block_sloc rt 1 slocPad block"
proof -
  have norm: "\<forall>v \<in> set (spec_sloc_values rt 1 slocPad block). normSloc rt (JStr v) slocPad = v"
    by (auto simp: spec_sloc_values_def normSloc_fixed split: list.splits)
  from assms show ?thesis
    unfolding parseBlock_def spec_block_sloc_def findSlocs_spec
    using block_sloc_spec [OF norm]
    by (auto simp: Let_def split: list.splits prod.splits)
qed

text \<open>
  Claim C5, amended, on a block whose detail table has a separator row below the header
  row and two cells of the same location.
\<close>

theorem block_storage_location_witness:
  "parseBlock demo_runtime 6 4 demo_block =
     Some \<lparr>Plant = ''1000'', Material = ''000123'', Material_Description = ''Widget'',
           Storage_Location = ''0001'', Key = ''1000|000123|0001'', SAP_SOH_MB5B = Fin 12\<rparr> \<and>
   spec_block_sloc demo_runtime 1 4 demo_block = ''0001''"
proof -
  have e: "parseBlock demo_runtime 6 4 demo_block =
     Some \<lparr>Plant = ''1000'', Material = ''000123'', Material_Description = ''Widget'',
           Storage_Location = ''0001'', Key = ''1000|000123|0001'', SAP_SOH_MB5B = Fin 12\<rparr>"
    by code_simp
  from block_storage_location [OF e] e show ?thesis by simp
qed

text \<open>
  Claim C5 as stated fails: with the block's only location cell in the row directly below
  the header row, the record's storage location is empty, where a scan of all rows below
  the header row finds the one value "0001".
\<close>

theorem block_storage_location_skips_row:
  "map_option Storage_Location
     (parseBlock demo_runtime 6 4
        [[JStr ''Plant 1000''], [JStr '''', JStr ''Loca'', JStr ''MvT''], [JStr '''', JStr ''0001'']]) = Some [] \<and>
   spec_block_sloc demo_runtime 0 4
     [[JStr ''Plant 1000''], [JStr '''', JStr ''Loca'', JStr ''MvT''], [JStr '''', JStr ''0001'']] = ''0001''"
  by code_simp

text \<open>
  Claim C6 fails on the code. A closing-stock line whose number ends in a minus sign with
  nothing after it is read as the positive number: the word boundary that ends the pattern
  cannot stand behind the minus sign at the end of the text, so the matcher gives the sign
  up. With a unit behind it the same sign negates. The record of a block with such a line
  holds the positive quantity.
\<close>

theorem closing_stock_trailing_minus_lost:
  "parseQtyLine demo_runtime ''Stock on 31.12.9999'' ''Stock on 31.12.9999 5-'' = Some (Fin 5) \<and>
   parseQtyLine demo_runtime ''Stock on 31.12.9999'' ''Stock on 31.12.9999 5- EA'' = Some (Fin (- 5)) \<and>
   parseMb5bBlocks demo_runtime
     [[JStr ''Plant 1000''], [JStr ''Material 123''], [JStr ''Stock on 31.12.9999 5-'']] 0 4 =
     Inr [\<lparr>Plant = ''1000'', Material = ''123'', Material_Description = [], Storage_Location = [],
           Key = ''1000|123|'', SAP_SOH_MB5B = Fin 5\<rparr>]"
  by code_simp

end
